theory Spec2Isabelle
  imports Complex_Main "HOL-Library.AList"
begin

section \<open>JavaScript helpers\<close>

text \<open>Failures of the program (thrown \<open>Error\<close>s, rejected promises) are values of one
  datatype; the constructors keep the data that the error messages interpolate.\<close>

datatype error =
    NonExistentDependency string string
  | CircularDependency "string list"
  | TypeError
  | TaskNotFound string
  | MaxWorkerLimit int
  | WorkerExists string
  | SpawnTimeout int
  | TaskConstructorFailed
  | SendFailed string
  | BridgeUnavailable
  | InvalidMaxWorkers

text \<open>\<^verbatim>\<open>Array.prototype.findIndex\<close>: the index of the first element satisfying the
  predicate; \<open>None\<close> stands for the result \<open>-1\<close>.\<close>

fun findIndex :: "('a \<Rightarrow> bool) \<Rightarrow> 'a list \<Rightarrow> nat option" where
  "findIndex P [] = None"
| "findIndex P (x # xs) =
     (if P x then Some 0 else (case findIndex P xs of None \<Rightarrow> None | Some i \<Rightarrow> Some (Suc i)))"

text \<open>A JavaScript \<open>Set\<close> of strings is a duplicate-free list in insertion order.\<close>

definition set_add :: "'a \<Rightarrow> 'a list \<Rightarrow> 'a list" where
  "set_add x xs = (if x \<in> set xs then xs else xs @ [x])"

definition new_Set :: "'a list \<Rightarrow> 'a list" where
  "new_Set xs = fold set_add xs []"

text \<open>The numbers that reach \<open>Math.min\<close> and \<open>slice\<close> in the strategies: integers, the
  infinities and \<open>NaN\<close> (the last three arise only from a division by zero).\<close>

datatype jsnum = Num int | PosInfinity | NegInfinity | NaN

text \<open>JavaScript numbers are IEEE 754 doubles. The numbers of the rate-aware strategy are
  taken to be integer-valued doubles, written as integers; an arithmetic result is the exact
  result rounded to the nearest double, ties to even. Rounding a positive rational to 53
  significant bits: scale it by a power of two into \<open>[2^52, 2^53)\<close>, round to the nearest
  integer, ties to even, and scale back.\<close>

definition round_half_even :: "rat \<Rightarrow> int" where
  "round_half_even y =
     (let f = \<lfloor>y\<rfloor>; r = y - of_int f
      in if r < 1 / 2 then f else if 1 / 2 < r then f + 1 else if even f then f else f + 1)"

text \<open>The least \<open>k\<close>, from the given one on, with \<open>a * 2^k / b \<ge> 2^52\<close>; and the least
  \<open>k\<close> with \<open>a / (b * 2^k) < 2^53\<close>.\<close>

function scale_up :: "int \<Rightarrow> int \<Rightarrow> nat \<Rightarrow> nat" where
  "scale_up a b k = (if 0 < a \<and> a * 2 ^ k < b * 2 ^ 52 then scale_up a b (Suc k) else k)"
  by pat_completeness auto
termination
  by (relation "measure (\<lambda>(a, b, k). nat (b * 2 ^ 52 - a * 2 ^ k))") auto

function scale_down :: "int \<Rightarrow> int \<Rightarrow> nat \<Rightarrow> nat" where
  "scale_down a b k = (if 0 < b \<and> b * 2 ^ (53 + k) \<le> a then scale_down a b (Suc k) else k)"
  by pat_completeness auto
termination
  by (relation "measure (\<lambda>(a, b, k). nat (a + 1 - b * 2 ^ (53 + k)))") auto

text \<open>The double nearest to \<open>a / b\<close>, for \<open>a \<ge> 0\<close> and \<open>b > 0\<close>. (Quotients of doubles do
  not overflow here, and a quotient below the normal range is below 1 whatever its
  precision.)\<close>

definition double_div :: "int \<Rightarrow> int \<Rightarrow> rat" where
  "double_div a b =
     (if a < b * 2 ^ 53
      then (let k = scale_up a b 0
            in of_int (round_half_even (of_int (a * 2 ^ k) / of_int b)) / 2 ^ k)
      else (let k = scale_down a b 0
            in of_int (round_half_even (of_int a / of_int (b * 2 ^ k))) * 2 ^ k))"

text \<open>\<open>x - y\<close> on integer-valued doubles: the difference rounded to a double, which is
  again an integer.\<close>

definition js_sub :: "int \<Rightarrow> int \<Rightarrow> int" where
  "js_sub x y =
     (let d = x - y in if d < 0 then - \<lfloor>double_div (- d) 1\<rfloor> else \<lfloor>double_div d 1\<rfloor>)"

text \<open>\<open>Math.floor(a / b)\<close> on integer-valued doubles: the division by zero gives \<open>NaN\<close> or
  an infinity, every other quotient is rounded to a double and then floored.\<close>

definition js_floor_div :: "int \<Rightarrow> int \<Rightarrow> jsnum" where
  "js_floor_div a b =
     (if b = 0 then (if a = 0 then NaN else if a > 0 then PosInfinity else NegInfinity)
      else if (a < 0) \<noteq> (b < 0) then Num \<lfloor>- double_div \<bar>a\<bar> \<bar>b\<bar>\<rfloor>
      else Num \<lfloor>double_div \<bar>a\<bar> \<bar>b\<bar>\<rfloor>)"

text \<open>\<open>Math.min\<close> of two numbers; the n-ary call is the fold of the binary one.\<close>

fun js_min :: "jsnum \<Rightarrow> jsnum \<Rightarrow> jsnum" where
  "js_min NaN _ = NaN"
| "js_min _ NaN = NaN"
| "js_min NegInfinity _ = NegInfinity"
| "js_min _ NegInfinity = NegInfinity"
| "js_min PosInfinity y = y"
| "js_min x PosInfinity = x"
| "js_min (Num a) (Num b) = Num (min a b)"

text \<open>\<open>xs.slice(0, end)\<close>: \<open>NaN\<close> is converted to 0, a negative end counts from the end
  of the array, and the result is clamped to the array.\<close>

fun js_slice0 :: "'a list \<Rightarrow> jsnum \<Rightarrow> 'a list" where
  "js_slice0 xs NaN = []"
| "js_slice0 xs PosInfinity = xs"
| "js_slice0 xs NegInfinity = []"
| "js_slice0 xs (Num n) =
     (if n < 0 then take (nat (max (int (length xs) + n) 0)) xs else take (nat n) xs)"

text \<open>\<open>xs.indexOf(x)\<close>, with \<open>-1\<close> when absent.\<close>

definition indexOf :: "'a list \<Rightarrow> 'a \<Rightarrow> int" where
  "indexOf xs x = (case findIndex (\<lambda>y. y = x) xs of None \<Rightarrow> -1 | Some i \<Rightarrow> int i)"

text \<open>\<open>xs.sort(cmp)\<close> is stable; it is modelled by the stable insertion sort, which every
  stable sort agrees with on a consistent comparator.\<close>

fun insert_by :: "('a \<Rightarrow> 'a \<Rightarrow> int) \<Rightarrow> 'a \<Rightarrow> 'a list \<Rightarrow> 'a list" where
  "insert_by cmp x [] = [x]"
| "insert_by cmp x (y # ys) = (if cmp x y \<le> 0 then x # y # ys else y # insert_by cmp x ys)"

definition js_sort :: "('a \<Rightarrow> 'a \<Rightarrow> int) \<Rightarrow> 'a list \<Rightarrow> 'a list" where
  "js_sort cmp xs = foldr (insert_by cmp) xs []"

text \<open>A sequential loop whose body may fail (\<open>Inl\<close>) or run out of fuel (\<open>None\<close>): the
  first failure ends the loop, as a thrown exception does.\<close>

fun forEach :: "('a \<Rightarrow> 's \<Rightarrow> (error + 's) option) \<Rightarrow> 'a list \<Rightarrow> 's \<Rightarrow> (error + 's) option" where
  "forEach f [] s = Some (Inr s)"
| "forEach f (x # xs) s =
     (case f x s of
        None \<Rightarrow> None
      | Some (Inl e) \<Rightarrow> Some (Inl e)
      | Some (Inr s') \<Rightarrow> forEach f xs s')"


section \<open>RateLimiter\<close>

text \<open>Numbers that are request counts and millisecond timestamps are modelled as \<open>int\<close>;
  the warning threshold (by default \<open>0.92 * requestsPerMinute\<close>) is a \<open>rat\<close>.
  A JavaScript \<open>Map\<close> is an association list in insertion order: \<open>AList.update\<close>
  overwrites in place or appends, as \<open>Map.set\<close> does.\<close>

record RateLimitConfig =
  provider :: string
  requestsPerMinute :: int
  warningThreshold :: "rat option"

record RequestRecord =
  timestamp :: int
  count :: int

datatype RateLimiterEvent =
    RateLimitWarning string int int int
  | RateLimitExceeded string int int

record RateLimiter =
  requests :: "(string \<times> RequestRecord list) list"
  config :: "(string \<times> RateLimitConfig) list"
  warningEmitted :: "string set"
  emitted :: "RateLimiterEvent list"

definition RateLimiter_init :: "RateLimitConfig \<Rightarrow> RateLimiter \<Rightarrow> RateLimiter" where
  "RateLimiter_init c st =
     st\<lparr> config := AList.update (provider c)
            (c\<lparr> warningThreshold :=
                 Some (case warningThreshold c of
                         Some w \<Rightarrow> w
                       | None \<Rightarrow> of_int (requestsPerMinute c) * (92 / 100)) \<rparr>) (config st),
         requests := AList.update (provider c) [] (requests st) \<rparr>"

definition RateLimiter_new :: "RateLimitConfig list \<Rightarrow> RateLimiter" where
  "RateLimiter_new configs =
     fold RateLimiter_init configs
       \<lparr> requests = [], config = [], warningEmitted = {}, emitted = [] \<rparr>"

text \<open>\<open>getCurrentRPM(provider)\<close>, with \<open>Date.now()\<close> passed as \<open>now\<close>.\<close>

definition getCurrentRPM :: "RateLimiter \<Rightarrow> string \<Rightarrow> int \<Rightarrow> int" where
  "getCurrentRPM st p now =
     (case map_of (requests st) p of
        None \<Rightarrow> 0
      | Some history \<Rightarrow>
          if history = [] then 0
          else (let oneMinuteAgo = now - 60000
                in foldl (\<lambda>sum r. sum + count r) 0
                     (filter (\<lambda>r. timestamp r > oneMinuteAgo) history)))"

text \<open>\<open>getHeadroom\<close>: \<open>None\<close> stands for \<open>Infinity\<close> (unknown provider).\<close>

definition getHeadroom :: "RateLimiter \<Rightarrow> string \<Rightarrow> int \<Rightarrow> int option" where
  "getHeadroom st p now =
     (case map_of (config st) p of
        None \<Rightarrow> None
      | Some c \<Rightarrow> Some (max 0 (requestsPerMinute c - getCurrentRPM st p now)))"

definition checkThresholds :: "RateLimiter \<Rightarrow> string \<Rightarrow> int \<Rightarrow> RateLimiter" where
  "checkThresholds st p now =
     (case map_of (config st) p of
        None \<Rightarrow> st
      | Some c \<Rightarrow>
          (let currentRPM = getCurrentRPM st p now;
               threshold = (case warningThreshold c of
                              Some w \<Rightarrow> w
                            | None \<Rightarrow> of_int (requestsPerMinute c) * (92 / 100));
               headroom = max 0 (requestsPerMinute c - currentRPM)
           in if currentRPM \<ge> requestsPerMinute c
              then st\<lparr> emitted := emitted st @ [RateLimitExceeded p currentRPM (requestsPerMinute c)] \<rparr>
              else if of_int currentRPM \<ge> threshold
              then (if p \<notin> warningEmitted st
                    then st\<lparr> warningEmitted := insert p (warningEmitted st),
                             emitted := emitted st @
                               [RateLimitWarning p currentRPM (requestsPerMinute c) headroom] \<rparr>
                    else st)
              else st\<lparr> warningEmitted := warningEmitted st - {p} \<rparr>))"

text \<open>\<open>track(provider, requestCount)\<close> at time \<open>now\<close>; the threshold check that ends it
  reads the clock again and is given the same time.\<close>

definition track :: "RateLimiter \<Rightarrow> string \<Rightarrow> int \<Rightarrow> int \<Rightarrow> RateLimiter" where
  "track st p requestCount now =
     (let history = (case map_of (requests st) p of None \<Rightarrow> [] | Some h \<Rightarrow> h);
          currentSecond = (now div 1000) * 1000;
          history' =
            (case findIndex (\<lambda>r. timestamp r = currentSecond) history of
               Some i \<Rightarrow> history[i := (history ! i)\<lparr> count := count (history ! i) + requestCount \<rparr>]
             | None \<Rightarrow> history @ [\<lparr> timestamp = currentSecond, count = requestCount \<rparr>])
      in checkThresholds (st\<lparr> requests := AList.update p history' (requests st) \<rparr>) p now)"

text \<open>The periodic sweep \<open>cleanup()\<close> at time \<open>now\<close>.\<close>

definition cleanup_provider :: "int \<Rightarrow> string \<Rightarrow> RateLimiter \<Rightarrow> RateLimiter" where
  "cleanup_provider now p st =
     (case map_of (requests st) p of
        None \<Rightarrow> st
      | Some history \<Rightarrow>
          checkThresholds
            (st\<lparr> requests := AList.update p
                   (filter (\<lambda>r. timestamp r > now - 60000) history) (requests st) \<rparr>) p now)"

definition cleanup :: "RateLimiter \<Rightarrow> int \<Rightarrow> RateLimiter" where
  "cleanup st now = fold (cleanup_provider now) (map fst (requests st)) st"

definition reset :: "RateLimiter \<Rightarrow> string \<Rightarrow> RateLimiter" where
  "reset st p = st\<lparr> requests := AList.update p [] (requests st),
                     warningEmitted := warningEmitted st - {p} \<rparr>"

definition resetAll :: "RateLimiter \<Rightarrow> RateLimiter" where
  "resetAll st = fold (\<lambda>p s. reset s p) (map fst (config st)) st"

text \<open>The history of a provider, the sum of its buckets inside the window that ends at
  \<open>now\<close>, a sequence of \<open>track\<close> calls (provider, count, time of the call), and what one
  such call contributes to the requests per minute of a provider read at \<open>now\<close>.\<close>

definition history_of :: "RateLimiter \<Rightarrow> string \<Rightarrow> RequestRecord list" where
  "history_of st p = (case map_of (requests st) p of None \<Rightarrow> [] | Some h \<Rightarrow> h)"

definition window_sum :: "int \<Rightarrow> RequestRecord list \<Rightarrow> int" where
  "window_sum now h = sum_list (map count (filter (\<lambda>r. timestamp r > now - 60000) h))"

fun track_all :: "RateLimiter \<Rightarrow> (string \<times> int \<times> int) list \<Rightarrow> RateLimiter" where
  "track_all st [] = st"
| "track_all st ((p, requestCount, now) # rest) = track_all (track st p requestCount now) rest"

definition counted :: "string \<Rightarrow> int \<Rightarrow> string \<times> int \<times> int \<Rightarrow> int" where
  "counted p now = (\<lambda>(q, requestCount, t). if q = p \<and> (t div 1000) * 1000 > now - 60000 then requestCount else 0)"

section \<open>TaskGraph\<close>

record TaskWithDependencies =
  t_id :: string
  t_dependencies :: "string list"
  t_instructions :: string
  t_workspacePath :: string
  t_workerType :: "string option"
  t_estimatedRPM :: "int option"

record TaskNode =
  n_id :: string
  n_dependencies :: "string list"
  n_dependents :: "string list"
  n_completed :: bool
  n_instructions :: string
  n_workspacePath :: string
  n_workerType :: "string option"
  n_estimatedRPM :: "int option"

text \<open>The field \<open>nodes: Map<string, TaskNode>\<close>, in insertion order.\<close>

type_synonym TaskGraph = "(string \<times> TaskNode) list"

definition node_of_task :: "TaskWithDependencies \<Rightarrow> TaskNode" where
  "node_of_task task =
     \<lparr> n_id = t_id task,
       n_dependencies = new_Set (t_dependencies task),
       n_dependents = [],
       n_completed = False,
       n_instructions = t_instructions task,
       n_workspacePath = t_workspacePath task,
       n_workerType = t_workerType task,
       n_estimatedRPM = t_estimatedRPM task \<rparr>"

text \<open>First pass of \<open>buildGraph\<close>: one \<open>Map.set\<close> per task.\<close>

definition createNodes :: "TaskWithDependencies list \<Rightarrow> TaskGraph" where
  "createNodes tasks = fold (\<lambda>task g. AList.update (t_id task) (node_of_task task) g) tasks []"

text \<open>Second pass: for every node, in map order, and every dependency of it, in set order,
  look the dependency up and add the node to its dependents. The pass only writes
  \<open>dependents\<close>, so the pairs it visits are those of the graph it starts from.\<close>

definition dependency_edges :: "TaskGraph \<Rightarrow> (string \<times> string) list" where
  "dependency_edges g = concat (map (\<lambda>(k, node). map (\<lambda>depId. (n_id node, depId)) (n_dependencies node)) g)"

fun addDependents :: "(string \<times> string) list \<Rightarrow> TaskGraph \<Rightarrow> error + TaskGraph" where
  "addDependents [] g = Inr g"
| "addDependents ((nodeId, depId) # rest) g =
     (case map_of g depId of
        None \<Rightarrow> Inl (NonExistentDependency nodeId depId)
      | Some depNode \<Rightarrow>
          addDependents rest
            (AList.update depId (depNode\<lparr> n_dependents := set_add nodeId (n_dependents depNode) \<rparr>) g))"

definition buildGraph :: "TaskWithDependencies list \<Rightarrow> error + TaskGraph" where
  "buildGraph tasks = (let g = createNodes tasks in addDependents (dependency_edges g) g)"

text \<open>\<open>validateNoCycles\<close>. The closure \<open>dfs\<close> recurses through the loop over the
  dependencies; the state threaded through is the pair of the sets \<open>visiting\<close> and
  \<open>visited\<close>. The first argument bounds the recursion depth; \<open>None\<close> means that the
  bound was reached. A missing node at \<open>this.nodes.get(nodeId)!\<close> is a \<open>TypeError\<close>.\<close>

fun dfs :: "nat \<Rightarrow> TaskGraph \<Rightarrow> string \<Rightarrow> string list \<Rightarrow> string set \<times> string set
              \<Rightarrow> (error + string set \<times> string set) option"
  and dfs_deps :: "nat \<Rightarrow> TaskGraph \<Rightarrow> string list \<Rightarrow> string list \<Rightarrow> string set \<times> string set
              \<Rightarrow> (error + string set \<times> string set) option" where
  "dfs 0 g nodeId path s = None"
| "dfs (Suc n) g nodeId path s =
     (if nodeId \<in> fst s then Some (Inl (CircularDependency (path @ [nodeId])))
      else if nodeId \<in> snd s then Some (Inr s)
      else (case map_of g nodeId of
              None \<Rightarrow> Some (Inl TypeError)
            | Some node \<Rightarrow>
                (case dfs_deps n g (n_dependencies node) (path @ [nodeId]) (insert nodeId (fst s), snd s) of
                   None \<Rightarrow> None
                 | Some (Inl e) \<Rightarrow> Some (Inl e)
                 | Some (Inr s') \<Rightarrow> Some (Inr (fst s' - {nodeId}, insert nodeId (snd s'))))))"
| "dfs_deps n g [] path s = Some (Inr s)"
| "dfs_deps n g (depId # rest) path s =
     (case dfs n g depId path s of
        None \<Rightarrow> None
      | Some (Inl e) \<Rightarrow> Some (Inl e)
      | Some (Inr s') \<Rightarrow> dfs_deps n g rest path s')"

text \<open>The loop over all node ids; a chain of distinct nodes is never longer than the
  number of nodes, so that depth plus one is given to \<open>dfs\<close>.\<close>

definition validateNoCycles :: "TaskGraph \<Rightarrow> (error + unit) option" where
  "validateNoCycles g =
     (case forEach (\<lambda>nodeId s. if nodeId \<notin> snd s then dfs (Suc (length g)) g nodeId [] s else Some (Inr s))
             (map fst g) ({}, {}) of
        None \<Rightarrow> None
      | Some (Inl e) \<Rightarrow> Some (Inl e)
      | Some (Inr s) \<Rightarrow> Some (Inr ()))"

text \<open>The constructor \<open>new TaskGraph(tasks)\<close>.\<close>

definition TaskGraph_new :: "TaskWithDependencies list \<Rightarrow> (error + TaskGraph) option" where
  "TaskGraph_new tasks =
     (case buildGraph tasks of
        Inl e \<Rightarrow> Some (Inl e)
      | Inr g \<Rightarrow>
          (case validateNoCycles g of
             None \<Rightarrow> None
           | Some (Inl e) \<Rightarrow> Some (Inl e)
           | Some (Inr u) \<Rightarrow> Some (Inr g)))"

text \<open>Both failures of the constructor are the spec's \<open>InvalidGraphError\<close>.\<close>

fun is_InvalidGraphError :: "error \<Rightarrow> bool" where
  "is_InvalidGraphError (NonExistentDependency t d) = True"
| "is_InvalidGraphError (CircularDependency c) = True"
| "is_InvalidGraphError e = False"

text \<open>The dependency relation of a task list, a dangling dependency, and a cycle, as the
  spec words them.\<close>

definition dep_rel :: "TaskWithDependencies list \<Rightarrow> (string \<times> string) set" where
  "dep_rel tasks = {(a, d). \<exists>t \<in> set tasks. a = t_id t \<and> d \<in> set (t_dependencies t)}"

definition dangling :: "TaskWithDependencies list \<Rightarrow> bool" where
  "dangling tasks = (\<exists>t \<in> set tasks. \<exists>d \<in> set (t_dependencies t). d \<notin> t_id ` set tasks)"

definition cyclic :: "TaskWithDependencies list \<Rightarrow> bool" where
  "cyclic tasks = (\<exists>x. (x, x) \<in> (dep_rel tasks)\<^sup>+)"

definition getIndependentTasks :: "TaskGraph \<Rightarrow> string list" where
  "getIndependentTasks g =
     map n_id (filter (\<lambda>node. \<not> n_completed node \<and>
        \<not> list_ex (\<lambda>depId. \<not> (case map_of g depId of None \<Rightarrow> False | Some d \<Rightarrow> n_completed d))
            (n_dependencies node)) (map snd g))"

definition markCompleted :: "TaskGraph \<Rightarrow> string \<Rightarrow> TaskGraph" where
  "markCompleted g taskId =
     (case map_of g taskId of
        None \<Rightarrow> g
      | Some node \<Rightarrow> AList.update taskId (node\<lparr> n_completed := True \<rparr>) g)"

definition getTaskDetails :: "TaskGraph \<Rightarrow> string \<Rightarrow> TaskNode option" where
  "getTaskDetails g taskId = map_of g taskId"

definition allTasksComplete :: "TaskGraph \<Rightarrow> bool" where
  "allTasksComplete g = list_all n_completed (map snd g)"

definition getTaskCount :: "TaskGraph \<Rightarrow> nat" where
  "getTaskCount g = length g"


subsection \<open>Notions for the verification of the cycle check\<close>

text \<open>The edges of a built graph, the invariant of the set \<open>visited\<close> (closed under
  dependencies and free of cycles), graphs without dangling edges, the errors that report a
  real cycle, and the body of the loop of \<open>validateNoCycles\<close>.\<close>

definition E :: "TaskGraph \<Rightarrow> (string \<times> string) set" where
  "E g = {(x, d). \<exists>node. map_of g x = Some node \<and> d \<in> set (n_dependencies node)}"

definition good :: "TaskGraph \<Rightarrow> string set \<Rightarrow> bool" where
  "good g V = ((\<forall>v \<in> V. \<forall>d. (v, d) \<in> E g \<longrightarrow> d \<in> V) \<and> (\<forall>v \<in> V. (v, v) \<notin> (E g)\<^sup>+))"

definition closedg :: "TaskGraph \<Rightarrow> bool" where
  "closedg g = (\<forall>x d. (x, d) \<in> E g \<longrightarrow> map_of g d \<noteq> None)"

definition cycle_error :: "TaskGraph \<Rightarrow> error \<Rightarrow> bool" where
  "cycle_error g e = ((\<exists>c. e = CircularDependency c) \<and> (\<exists>y. (y, y) \<in> (E g)\<^sup>+))"

definition loop_body :: "nat \<Rightarrow> TaskGraph \<Rightarrow> string \<Rightarrow> string set \<times> string set
    \<Rightarrow> (error + string set \<times> string set) option" where
  "loop_body n g = (\<lambda>nodeId s. if nodeId \<notin> snd s then dfs n g nodeId [] s else Some (Inr s))"

text \<open>Two graphs with the same keys and the same dependencies (the second pass of
  \<open>buildGraph\<close> changes \<open>dependents\<close> only).\<close>

definition same_deps :: "TaskGraph \<Rightarrow> TaskGraph \<Rightarrow> bool" where
  "same_deps g g' = (map fst g' = map fst g \<and>
     (\<forall>k. map_option n_dependencies (map_of g' k) = map_option n_dependencies (map_of g k)))"

text \<open>A task with the given id and dependencies, for concrete examples.\<close>

definition mk_task :: "string \<Rightarrow> string list \<Rightarrow> TaskWithDependencies" where
  "mk_task i deps = \<lparr> t_id = i, t_dependencies = deps, t_instructions = ''do'',
     t_workspacePath = ''/w'', t_workerType = None, t_estimatedRPM = None \<rparr>"

section \<open>Critical path and scheduling strategies\<close>

text \<open>\<open>this.nodes.get(depId)?.completed\<close>, as a truth value.\<close>

definition isCompleted :: "TaskGraph \<Rightarrow> string \<Rightarrow> bool" where
  "isCompleted g depId = (case map_of g depId of None \<Rightarrow> False | Some d \<Rightarrow> n_completed d)"

text \<open>The local variables of \<open>getCriticalPath\<close>.\<close>

record kahn_state =
  k_queue :: "string list"
  k_inDegree :: "(string \<times> int) list"
  k_distances :: "(string \<times> int) list"
  k_predecessors :: "(string \<times> string option) list"
  k_sorted :: "string list"

definition init_inDegree :: "TaskGraph \<Rightarrow> TaskNode \<Rightarrow> kahn_state \<Rightarrow> kahn_state" where
  "init_inDegree g node st =
     (if n_completed node then st
      else (let incompleteDeps = filter (\<lambda>depId. \<not> isCompleted g depId) (n_dependencies node);
                st1 = st\<lparr> k_inDegree := AList.update (n_id node) (int (length incompleteDeps)) (k_inDegree st) \<rparr>
            in if length incompleteDeps = 0 then st1\<lparr> k_queue := k_queue st1 @ [n_id node] \<rparr> else st1))"

definition kahn_init :: "TaskGraph \<Rightarrow> kahn_state" where
  "kahn_init g =
     (let st0 = fold (init_inDegree g) (map snd g)
                  \<lparr> k_queue = [], k_inDegree = [], k_distances = [], k_predecessors = [], k_sorted = [] \<rparr>
      in st0\<lparr> k_distances := fold (\<lambda>nodeId m. AList.update nodeId 0 m) (map fst g) [],
              k_predecessors := fold (\<lambda>nodeId m. AList.update nodeId None m) (map fst g) [] \<rparr>)"

text \<open>The body of the loop over \<open>node.dependents\<close>. The lookups written with \<open>!\<close> in the
  source never miss on a graph built by the constructor; a miss is reported as \<open>TypeError\<close>.\<close>

definition relax :: "TaskGraph \<Rightarrow> string \<Rightarrow> string \<Rightarrow> kahn_state \<Rightarrow> (error + kahn_state) option" where
  "relax g nodeId dependentId st =
     (case map_of g dependentId of
        None \<Rightarrow> Some (Inl TypeError)
      | Some dependentNode \<Rightarrow>
          if n_completed dependentNode then Some (Inr st)
          else (case (map_of (k_distances st) nodeId, map_of (k_distances st) dependentId,
                      map_of (k_inDegree st) dependentId) of
                  (Some dn, Some dd, Some deg) \<Rightarrow>
                    (let newDist = dn + 1;
                         st1 = (if newDist > dd
                                then st\<lparr> k_distances := AList.update dependentId newDist (k_distances st),
                                         k_predecessors := AList.update dependentId (Some nodeId) (k_predecessors st) \<rparr>
                                else st);
                         degree = deg - 1;
                         st2 = st1\<lparr> k_inDegree := AList.update dependentId degree (k_inDegree st1) \<rparr>
                     in Some (Inr (if degree = 0 then st2\<lparr> k_queue := k_queue st2 @ [dependentId] \<rparr> else st2)))
                | _ \<Rightarrow> Some (Inl TypeError)))"

text \<open>\<open>while (queue.length > 0)\<close>: a loop that is not known to end on an arbitrary value
  of the graph type; \<open>None\<close> is non-termination.\<close>

partial_function (option) kahn_loop :: "TaskGraph \<Rightarrow> kahn_state \<Rightarrow> (error + kahn_state) option" where
  "kahn_loop g st =
     (case k_queue st of
        [] \<Rightarrow> Some (Inr st)
      | nodeId # rest \<Rightarrow>
          (case map_of g nodeId of
             None \<Rightarrow> Some (Inl TypeError)
           | Some node \<Rightarrow>
               (case forEach (relax g nodeId) (n_dependents node)
                       (st\<lparr> k_queue := rest, k_sorted := k_sorted st @ [nodeId] \<rparr>) of
                  None \<Rightarrow> None
                | Some (Inl e) \<Rightarrow> Some (Inl e)
                | Some (Inr st') \<Rightarrow> kahn_loop g st')))"

declare kahn_loop.simps [code]

text \<open>The search for the node of maximum distance: the pair is \<open>(maxDist, endNode)\<close>.\<close>

definition pick_end :: "TaskGraph \<Rightarrow> string \<times> int \<Rightarrow> int \<times> string option \<Rightarrow> (error + int \<times> string option) option" where
  "pick_end g = (\<lambda>(nodeId, dist) (maxDist, endNode).
     (case map_of g nodeId of
        None \<Rightarrow> Some (Inl TypeError)
      | Some node \<Rightarrow>
          if \<not> n_completed node \<and> dist > maxDist then Some (Inr (dist, Some nodeId))
          else Some (Inr (maxDist, endNode))))"

text \<open>\<open>while (current !== null)\<close>: a missing predecessor entry is \<open>undefined\<close>, which is
  not \<open>null\<close>, and the loop then never ends.\<close>

partial_function (option) reconstruct :: "(string \<times> string option) list \<Rightarrow> string \<Rightarrow> string list \<Rightarrow> string list option" where
  "reconstruct preds current path =
     (case map_of preds current of
        None \<Rightarrow> None
      | Some None \<Rightarrow> Some (current # path)
      | Some (Some p) \<Rightarrow> reconstruct preds p (current # path))"

declare reconstruct.simps [code]

definition getCriticalPath :: "TaskGraph \<Rightarrow> (error + string list) option" where
  "getCriticalPath g =
     (case kahn_loop g (kahn_init g) of
        None \<Rightarrow> None
      | Some (Inl e) \<Rightarrow> Some (Inl e)
      | Some (Inr st) \<Rightarrow>
          (case forEach (pick_end g) (k_distances st) (-1, None) of
             None \<Rightarrow> None
           | Some (Inl e) \<Rightarrow> Some (Inl e)
           | Some (Inr (maxDist, endNode)) \<Rightarrow>
               (case endNode of
                  None \<Rightarrow> Some (Inr [])
                | Some e \<Rightarrow>
                    if e = [] then Some (Inr [])
                    else (case reconstruct (k_predecessors st) e [] of
                            None \<Rightarrow> None
                          | Some path \<Rightarrow> Some (Inr path)))))"

text \<open>A strategy call returns the selected ids together with the contents of the array
  \<open>availableTasks\<close> after the call: \<open>slice\<close> copies, \<open>sort\<close> sorts the array in place and
  returns that same array.\<close>

definition selectTasks_MaxParallel :: "string list \<Rightarrow> int \<Rightarrow> string list \<times> string list" where
  "selectTasks_MaxParallel availableTasks availableWorkers =
     (js_slice0 availableTasks (Num availableWorkers), availableTasks)"

record RateAwareStrategy =
  maxRPM :: int
  estimatedRPMPerTask :: int

definition selectTasks_RateAware ::
    "RateAwareStrategy \<Rightarrow> string list \<Rightarrow> int \<Rightarrow> int option \<Rightarrow> string list \<times> string list" where
  "selectTasks_RateAware this availableTasks availableWorkers currentRPM_opt =
     (let currentRPM = (case currentRPM_opt of None \<Rightarrow> 0 | Some c \<Rightarrow> c);
          headroom = max 0 (js_sub (maxRPM this) currentRPM);
          tasksToSpawn = js_min (js_min (Num (int (length availableTasks))) (Num availableWorkers))
                                (js_floor_div headroom (estimatedRPMPerTask this))
      in (js_slice0 availableTasks tasksToSpawn, availableTasks))"

definition criticalPath_compare :: "string list \<Rightarrow> string \<Rightarrow> string \<Rightarrow> int" where
  "criticalPath_compare criticalPath a b =
     (let aOnPath = a \<in> set criticalPath; bOnPath = b \<in> set criticalPath
      in if aOnPath \<and> \<not> bOnPath then -1
         else if \<not> aOnPath \<and> bOnPath then 1
         else if aOnPath \<and> bOnPath then indexOf criticalPath a - indexOf criticalPath b
         else 0)"

definition selectTasks_CriticalPath ::
    "string list \<Rightarrow> int \<Rightarrow> int option \<Rightarrow> TaskGraph option \<Rightarrow> (error + string list \<times> string list) option" where
  "selectTasks_CriticalPath availableTasks availableWorkers currentRPM graph =
     (case graph of
        None \<Rightarrow> Some (Inr (js_slice0 availableTasks (Num availableWorkers), availableTasks))
      | Some g \<Rightarrow>
          (case getCriticalPath g of
             None \<Rightarrow> None
           | Some (Inl e) \<Rightarrow> Some (Inl e)
           | Some (Inr criticalPath) \<Rightarrow>
               (let prioritized = js_sort (criticalPath_compare criticalPath) availableTasks
                in Some (Inr (js_slice0 prioritized (Num availableWorkers), prioritized)))))"

datatype SchedulingStrategy = MaxParallel | RateAware RateAwareStrategy | CriticalPath

definition selectTasks ::
    "SchedulingStrategy \<Rightarrow> string list \<Rightarrow> int \<Rightarrow> int option \<Rightarrow> TaskGraph option
       \<Rightarrow> (error + string list \<times> string list) option" where
  "selectTasks strategy availableTasks availableWorkers currentRPM graph =
     (case strategy of
        MaxParallel \<Rightarrow> Some (Inr (selectTasks_MaxParallel availableTasks availableWorkers))
      | RateAware this \<Rightarrow> Some (Inr (selectTasks_RateAware this availableTasks availableWorkers currentRPM))
      | CriticalPath \<Rightarrow> selectTasks_CriticalPath availableTasks availableWorkers currentRPM graph)"


text \<open>The graph of the tasks \<open>A\<close>, \<open>B\<close> (after \<open>A\<close>), \<open>C\<close> (after \<open>B\<close>), \<open>D\<close> (after
  \<open>A\<close>) once \<open>A\<close> has completed; its critical path is \<open>B, C\<close>.\<close>

definition example_graph :: TaskGraph where
  "example_graph =
     (case TaskGraph_new [mk_task ''A'' [], mk_task ''B'' [''A''], mk_task ''C'' [''B''],
                          mk_task ''D'' [''A'']] of
        Some (Inr g) \<Rightarrow> markCompleted g ''A''
      | _ \<Rightarrow> [])"

section \<open>ParallelInstanceManager\<close>

text \<open>The class \<open>Task\<close> is outside the modelled sources. A task is represented by the two
  options that \<open>createTask\<close> takes from the spawn parameters (the other options are
  constants) and by its \<open>abort\<close> flag; what
  \<open>Promise.race([createTask(params), timeoutPromise])\<close> settles to is an input of
  \<open>spawnWorker\<close>. The configuration field \<open>workspaceDirs\<close>, which no method reads, is left
  out.\<close>

record Task =
  task_text :: string
  task_workspacePath :: string
  task_abort :: bool

datatype task_outcome = TaskCreated | TaskTimedOut | TaskConstructorThrew

datatype WorkerStatus = idle | busy | errored | terminated

record WorkerInstance =
  w_id :: string
  w_task :: Task
  w_workingDir :: string
  w_createdAt :: int
  w_status :: WorkerStatus

record ParallelInstanceConfig =
  maxWorkers :: int
  spawnTimeout :: int
  autoCleanup :: bool

record ParallelInstanceManager =
  workers :: "(string \<times> WorkerInstance) list"
  pim_config :: ParallelInstanceConfig

text \<open>The constructor, given the optional fields of \<open>Partial<ParallelInstanceConfig>\<close>.\<close>

definition ParallelInstanceManager_new ::
    "int option \<Rightarrow> int option \<Rightarrow> bool option \<Rightarrow> error + ParallelInstanceManager" where
  "ParallelInstanceManager_new maxWorkers_opt spawnTimeout_opt autoCleanup_opt =
     (let mw = (case maxWorkers_opt of None \<Rightarrow> 10 | Some m \<Rightarrow> m)
      in if mw < 2 \<or> mw > 50 then Inl InvalidMaxWorkers
         else Inr \<lparr> workers = [],
                    pim_config = \<lparr> maxWorkers = mw,
                                   spawnTimeout = (case spawnTimeout_opt of None \<Rightarrow> 3000 | Some t \<Rightarrow> t),
                                   autoCleanup = (case autoCleanup_opt of None \<Rightarrow> True | Some a \<Rightarrow> a) \<rparr> \<rparr>)"

record SpawnParams =
  sp_taskId :: string
  sp_workingDir :: string
  sp_systemPrompt :: string
  sp_mcpServers :: "string list option"

definition createTask :: "SpawnParams \<Rightarrow> Task" where
  "createTask params =
     \<lparr> task_text = sp_systemPrompt params, task_workspacePath = sp_workingDir params,
       task_abort = False \<rparr>"

text \<open>\<open>terminateWorker\<close>: a no-op on an untracked id; otherwise the worker is marked
  terminated, its task is told to abort and, in the \<open>finally\<close> block, it is removed.\<close>

definition terminateWorker :: "ParallelInstanceManager \<Rightarrow> string \<Rightarrow> ParallelInstanceManager" where
  "terminateWorker this workerId =
     (case map_of (workers this) workerId of
        None \<Rightarrow> this
      | Some worker \<Rightarrow>
          (let worker' = worker\<lparr> w_status := terminated, w_task := (w_task worker)\<lparr> task_abort := True \<rparr> \<rparr>;
               this' = this\<lparr> workers := AList.update workerId worker' (workers this) \<rparr>
           in this'\<lparr> workers := AList.delete workerId (workers this') \<rparr>))"

text \<open>\<open>spawnWorker\<close> returns its result (the rejection or the worker) together with the
  manager afterwards. \<open>now\<close> is the value of \<open>new Date()\<close>.\<close>

definition spawnWorker ::
    "ParallelInstanceManager \<Rightarrow> SpawnParams \<Rightarrow> task_outcome \<Rightarrow> int
       \<Rightarrow> (error + WorkerInstance) \<times> ParallelInstanceManager" where
  "spawnWorker this params outcome now =
     (if int (length (workers this)) \<ge> maxWorkers (pim_config this)
      then (Inl (MaxWorkerLimit (maxWorkers (pim_config this))), this)
      else if map_of (workers this) (sp_taskId params) \<noteq> None
      then (Inl (WorkerExists (sp_taskId params)), this)
      else (case outcome of
              TaskCreated \<Rightarrow>
                (let worker = \<lparr> w_id = sp_taskId params, w_task = createTask params,
                                w_workingDir = sp_workingDir params, w_createdAt = now,
                                w_status = idle \<rparr>
                 in (Inr worker, this\<lparr> workers := AList.update (sp_taskId params) worker (workers this) \<rparr>))
            | TaskTimedOut \<Rightarrow>
                (Inl (SpawnTimeout (spawnTimeout (pim_config this))),
                 if autoCleanup (pim_config this) then terminateWorker this (sp_taskId params) else this)
            | TaskConstructorThrew \<Rightarrow>
                (Inl TaskConstructorFailed,
                 if autoCleanup (pim_config this) then terminateWorker this (sp_taskId params) else this)))"

text \<open>The listeners installed by \<open>setupTaskEventListeners\<close>.\<close>

datatype TaskEvent = TaskStarted | TaskCompleted | TaskAborted | TaskToolFailed

definition onTaskEvent :: "ParallelInstanceManager \<Rightarrow> string \<Rightarrow> TaskEvent \<Rightarrow> ParallelInstanceManager" where
  "onTaskEvent this workerId ev =
     (case map_of (workers this) workerId of
        None \<Rightarrow> this
      | Some w \<Rightarrow>
          this\<lparr> workers := AList.update workerId
                  (w\<lparr> w_status := (case ev of TaskStarted \<Rightarrow> busy | TaskCompleted \<Rightarrow> idle
                                    | TaskAborted \<Rightarrow> errored | TaskToolFailed \<Rightarrow> errored) \<rparr>)
                  (workers this) \<rparr>)"

definition getWorker :: "ParallelInstanceManager \<Rightarrow> string \<Rightarrow> WorkerInstance option" where
  "getWorker this workerId = map_of (workers this) workerId"


text \<open>A pool of capacity two that tracks one worker, \<open>t1\<close>.\<close>

definition example_pool :: ParallelInstanceManager where
  "example_pool =
     (case ParallelInstanceManager_new (Some 2) None None of
        Inr m \<Rightarrow>
          snd (spawnWorker m \<lparr> sp_taskId = ''t1'', sp_workingDir = ''/a'', sp_systemPrompt = ''p'',
                                sp_mcpServers = None \<rparr> TaskCreated 0)
      | Inl e \<Rightarrow> \<lparr> workers = [], pim_config = \<lparr> maxWorkers = 2, spawnTimeout = 0, autoCleanup = True \<rparr> \<rparr>)"

section \<open>IPCChannel\<close>

datatype IPCMessageType =
    task_assignment | task_completed | task_failed | review_request
  | review_approved | review_rejected | escalation | heartbeat

text \<open>A message id is either generated by \<open>send\<close> (\<open>msg-<count>-<now>\<close>) or given by the
  peer. A payload is a flat JSON object of string fields.\<close>

datatype msg_id = GeneratedId nat int | GivenId string

record IPCMessage =
  m_id :: msg_id
  m_type :: IPCMessageType
  m_from :: string
  m_to :: string
  m_payload :: "(string \<times> string) list"
  m_timestamp :: int
  m_correlationId :: "string option"

record IPCChannelConfig =
  port :: int
  maxQueueSize :: int
  messageTimeout :: int
  enableRemoteFallback :: bool
  maxReconnectAttempts :: int
  reconnectDelay :: int

text \<open>A promise returned by the waiting branch of \<open>waitForMessage\<close>: its key in
  \<open>pendingMessages\<close>, its filter, whether it is settled, whether its listener is still
  registered on the \<open>message\<close> event, and whether its timer is still armed.\<close>

record Waiter =
  wt_key :: string
  wt_filter :: "IPCMessage \<Rightarrow> bool"
  wt_settled :: bool
  wt_listening :: bool
  wt_timer :: bool

text \<open>The channel. \<open>server\<close> holds the worker ids bound to sockets when a server exists,
  \<open>client\<close> the connection flag when a client exists, \<open>messageHandlers\<close> the message types
  with a registered handler, \<open>bridgeOrchestrator\<close> whether
  \<open>BridgeOrchestrator.getInstance()\<close> yields an instance.\<close>

record IPCChannel =
  ch_config :: IPCChannelConfig
  server :: "string list option"
  client :: "bool option"
  messageQueue :: "(string \<times> IPCMessage list) list"
  messageHandlers :: "IPCMessageType list"
  pendingMessages :: "string list"
  waiters :: "Waiter list"
  bridgeOrchestrator :: bool
  remoteWorkers :: "string list"
  isServer :: bool
  messageCount :: nat

text \<open>What an operation of the channel does to the outside: promises settled, events
  emitted, handlers called, bytes written.\<close>

datatype ChannelOutput =
    Resolved string IPCMessage
  | Rejected string
  | EmitMessage IPCMessage
  | EmitRemoteMessage IPCMessage
  | HandlerCall IPCMessageType IPCMessage
  | SocketWrite string IPCMessage

definition IPCChannel_new :: "IPCChannelConfig \<Rightarrow> bool \<Rightarrow> IPCChannel" where
  "IPCChannel_new cfg bridge =
     \<lparr> ch_config = cfg, server = None, client = None, messageQueue = [], messageHandlers = [],
       pendingMessages = [], waiters = [], bridgeOrchestrator = bridge, remoteWorkers = [],
       isServer = False, messageCount = 0 \<rparr>"

definition default_IPCChannelConfig :: IPCChannelConfig where
  "default_IPCChannelConfig =
     \<lparr> port = 0, maxQueueSize = 1000, messageTimeout = 5000, enableRemoteFallback = True,
       maxReconnectAttempts = 5, reconnectDelay = 1000 \<rparr>"

text \<open>\<open>pending.resolve(message)\<close> on the entry of \<open>pendingMessages\<close> under a key, after
  \<open>clearTimeout\<close>: resolving a settled promise does nothing.\<close>

fun resolve_waiter :: "string \<Rightarrow> IPCMessage \<Rightarrow> Waiter list \<Rightarrow> Waiter list \<times> ChannelOutput list" where
  "resolve_waiter k msg [] = ([], [])"
| "resolve_waiter k msg (w # ws) =
     (if wt_key w = k
      then ((w\<lparr> wt_settled := True, wt_timer := False \<rparr>) # ws,
            if wt_settled w then [] else [Resolved k msg])
      else (case resolve_waiter k msg ws of (ws', out) \<Rightarrow> (w # ws', out)))"

text \<open>The listener that \<open>waitForMessage\<close> registers on the \<open>message\<close> event.\<close>

definition triggered :: "IPCMessage \<Rightarrow> Waiter \<Rightarrow> bool" where
  "triggered msg w = (wt_listening w \<and> wt_filter w msg)"

definition notify :: "IPCMessage \<Rightarrow> Waiter \<Rightarrow> Waiter" where
  "notify msg w =
     (if triggered msg w then w\<lparr> wt_settled := True, wt_listening := False, wt_timer := False \<rparr> else w)"

text \<open>The correlation id under which a received message finds a pending entry, if any.\<close>

definition pending_for :: "IPCChannel \<Rightarrow> IPCMessage \<Rightarrow> string option" where
  "pending_for this message =
     (case m_correlationId message of
        None \<Rightarrow> None
      | Some cid \<Rightarrow> if cid \<noteq> [] \<and> cid \<in> set (pendingMessages this) then Some cid else None)"

definition handleMessage :: "IPCChannel \<Rightarrow> IPCMessage \<Rightarrow> IPCChannel \<times> ChannelOutput list" where
  "handleMessage this message =
     (case pending_for this message of
        Some cid \<Rightarrow>
          (case resolve_waiter cid message (waiters this) of
             (ws, out) \<Rightarrow>
               (this\<lparr> pendingMessages := removeAll cid (pendingMessages this), waiters := ws \<rparr>, out))
      | None \<Rightarrow>
          (let queue = (case map_of (messageQueue this) (m_to message) of None \<Rightarrow> [] | Some q \<Rightarrow> q);
               queue1 = (if int (length queue) \<ge> maxQueueSize (ch_config this) then tl queue else queue);
               queue2 = queue1 @ [message];
               hit = filter (triggered message) (waiters this)
           in (this\<lparr> messageQueue := AList.update (m_to message) queue2 (messageQueue this),
                     waiters := map (notify message) (waiters this),
                     pendingMessages := filter (\<lambda>k. k \<notin> set (map wt_key hit)) (pendingMessages this) \<rparr>,
               map (\<lambda>w. Resolved (wt_key w) message) (filter (\<lambda>w. \<not> wt_settled w) hit)
                 @ [EmitMessage message]
                 @ (if m_type message \<in> set (messageHandlers this)
                    then [HandlerCall (m_type message) message] else []))))"




text \<open>The timer of a waiter fires.\<close>

definition waitTimeout :: "IPCChannel \<Rightarrow> string \<Rightarrow> IPCChannel \<times> ChannelOutput list" where
  "waitTimeout this key =
     (if list_ex (\<lambda>w. wt_key w = key \<and> wt_timer w) (waiters this)
      then (this\<lparr> pendingMessages := removeAll key (pendingMessages this),
                 waiters := map (\<lambda>w. if wt_key w = key \<and> wt_timer w
                                      then w\<lparr> wt_settled := True, wt_timer := False \<rparr> else w) (waiters this) \<rparr>,
            map (\<lambda>w. Rejected key)
              (filter (\<lambda>w. wt_key w = key \<and> wt_timer w \<and> \<not> wt_settled w) (waiters this)))
      else (this, []))"

record OutgoingMessage =
  o_type :: IPCMessageType
  o_from :: string
  o_to :: string
  o_payload :: "(string \<times> string) list"
  o_correlationId :: "string option"

definition sendLocal :: "IPCChannel \<Rightarrow> IPCMessage \<Rightarrow> bool" where
  "sendLocal this message =
     (if isServer this \<and> server this \<noteq> None
      then (case server this of None \<Rightarrow> False | Some workerSockets \<Rightarrow> m_to message \<in> set workerSockets)
      else (case client this of None \<Rightarrow> False | Some isConnected \<Rightarrow> isConnected))"

definition sendViaBridge :: "IPCChannel \<Rightarrow> IPCMessage \<Rightarrow> (error + unit) \<times> IPCChannel \<times> ChannelOutput list" where
  "sendViaBridge this message =
     (if \<not> bridgeOrchestrator this then (Inl BridgeUnavailable, this, [])
      else (Inr (), this, [EmitRemoteMessage message]))"

text \<open>\<open>send(message)\<close> at time \<open>now\<close>.\<close>

definition send :: "IPCChannel \<Rightarrow> OutgoingMessage \<Rightarrow> int \<Rightarrow> (error + unit) \<times> IPCChannel \<times> ChannelOutput list" where
  "send this message now =
     (let this1 = this\<lparr> messageCount := Suc (messageCount this) \<rparr>;
          fullMessage = \<lparr> m_id = GeneratedId (messageCount this1) now, m_type = o_type message,
                          m_from = o_from message, m_to = o_to message, m_payload = o_payload message,
                          m_timestamp = now, m_correlationId = o_correlationId message \<rparr>
      in if enableRemoteFallback (ch_config this1) \<and> o_to message \<in> set (remoteWorkers this1)
         then sendViaBridge this1 fullMessage
         else (let sent = sendLocal this1 fullMessage
               in if \<not> sent \<and> enableRemoteFallback (ch_config this1)
                  then sendViaBridge (this1\<lparr> remoteWorkers := set_add (o_to message) (remoteWorkers this1) \<rparr>) fullMessage
                  else if \<not> sent then (Inl (SendFailed (o_to message)), this1, [])
                  else (Inr (), this1, [SocketWrite (o_to message) fullMessage])))"

definition onMessageType :: "IPCChannel \<Rightarrow> IPCMessageType \<Rightarrow> IPCChannel" where
  "onMessageType this ty = this\<lparr> messageHandlers := set_add ty (messageHandlers this) \<rparr>"

text \<open>A parsed line arrives at the server from a worker: the first message of a worker id
  binds it, then the channel handles the message.\<close>

definition server_receive :: "IPCChannel \<Rightarrow> IPCMessage \<Rightarrow> IPCChannel \<times> ChannelOutput list" where
  "server_receive this message =
     handleMessage
       (case server this of
          None \<Rightarrow> this
        | Some workerSockets \<Rightarrow> this\<lparr> server := Some (set_add (m_from message) workerSockets) \<rparr>)
       message"




text \<open>A fresh channel with the default configuration, and a completion message of worker
  \<open>worker-1\<close> for the orchestrator.\<close>

definition example_channel :: IPCChannel where
  "example_channel = IPCChannel_new default_IPCChannelConfig True"






section \<open>OrchestrationScheduler\<close>

datatype TaskState = pending | running | completed | failed

datatype SchedulingStrategyType = max_parallel | rate_aware | critical_path

record SchedulerOptions =
  opt_strategy :: SchedulingStrategyType
  opt_maxRPM :: "int option"
  opt_estimatedRPMPerTask :: "int option"

datatype SchedulerEvent =
    ev_started
  | ev_task_assigned string string
  | ev_task_completed "string option"
  | ev_task_failed "string option" "string option"
  | ev_task_assign_failed string error
  | ev_completed
  | ev_error error

text \<open>The scheduler, with the events it has emitted and what its channel has put out. The
  map \<open>executionState\<close> is keyed by task ids; a handler that finds no \<open>taskId\<close> in a payload
  writes the key \<open>undefined\<close>, whose entry is the field \<open>s_undefinedState\<close>.\<close>

record OrchestrationScheduler =
  s_graph :: TaskGraph
  s_strategy :: SchedulingStrategy
  s_instanceManager :: ParallelInstanceManager
  s_ipcChannel :: IPCChannel
  s_executionState :: "(string \<times> TaskState) list"
  s_undefinedState :: "TaskState option"
  s_workerMapping :: "(string \<times> string) list"
  s_currentRPM :: int
  s_options :: SchedulerOptions
  s_events :: "SchedulerEvent list"
  s_outputs :: "ChannelOutput list"

definition selectStrategy :: "SchedulerOptions \<Rightarrow> SchedulingStrategy" where
  "selectStrategy opts =
     (case opt_strategy opts of
        max_parallel \<Rightarrow> MaxParallel
      | rate_aware \<Rightarrow>
          RateAware \<lparr> maxRPM = (case opt_maxRPM opts of None \<Rightarrow> 3800 | Some m \<Rightarrow> m),
                      estimatedRPMPerTask = (case opt_estimatedRPMPerTask opts of None \<Rightarrow> 15 | Some e \<Rightarrow> e) \<rparr>
      | critical_path \<Rightarrow> CriticalPath)"

text \<open>The constructor; \<open>setupIPCHandlers\<close> registers the handlers of the two message
  types on the channel.\<close>

definition OrchestrationScheduler_new ::
    "TaskWithDependencies list \<Rightarrow> SchedulerOptions \<Rightarrow> ParallelInstanceManager \<Rightarrow> IPCChannel
       \<Rightarrow> (error + OrchestrationScheduler) option" where
  "OrchestrationScheduler_new tasks opts im ipc =
     (case TaskGraph_new tasks of
        None \<Rightarrow> None
      | Some (Inl e) \<Rightarrow> Some (Inl e)
      | Some (Inr g) \<Rightarrow>
          Some (Inr \<lparr> s_graph = g,
                      s_strategy = selectStrategy opts,
                      s_instanceManager = im,
                      s_ipcChannel = onMessageType (onMessageType ipc task_completed) task_failed,
                      s_executionState = fold (\<lambda>task m. AList.update (t_id task) pending m) tasks [],
                      s_undefinedState = None,
                      s_workerMapping = [],
                      s_currentRPM = 0,
                      s_options = opts,
                      s_events = [],
                      s_outputs = [] \<rparr>))"

text \<open>The values of \<open>executionState\<close>, the entry of the key \<open>undefined\<close> among them.\<close>

definition executionState_values :: "OrchestrationScheduler \<Rightarrow> TaskState list" where
  "executionState_values this =
     map snd (s_executionState this) @ (case s_undefinedState this of None \<Rightarrow> [] | Some state \<Rightarrow> [state])"

definition runningCount :: "OrchestrationScheduler \<Rightarrow> int" where
  "runningCount this = int (length (filter (\<lambda>state. state = running) (executionState_values this)))"

definition getAvailableWorkerCount :: "OrchestrationScheduler \<Rightarrow> int" where
  "getAvailableWorkerCount this = max 0 (10 - runningCount this)"

text \<open>The amount by which a task changes the RPM estimate: \<open>estimatedRPM\<close> when it is
  truthy (present and not 0), else \<open>options.estimatedRPMPerTask ?? 15\<close>.\<close>

definition rpm_of :: "OrchestrationScheduler \<Rightarrow> TaskNode option \<Rightarrow> int" where
  "rpm_of this taskDetails =
     (let dflt = (case opt_estimatedRPMPerTask (s_options this) of None \<Rightarrow> 15 | Some e \<Rightarrow> e)
      in case taskDetails of
           None \<Rightarrow> dflt
         | Some td \<Rightarrow> (case n_estimatedRPM td of None \<Rightarrow> dflt | Some r \<Rightarrow> if r \<noteq> 0 then r else dflt))"

text \<open>What the environment decides during a run: how the creation of the session of each
  task settles, and the clock.\<close>

record Env =
  env_outcome :: "string \<Rightarrow> task_outcome"
  env_now :: int

definition assign_failed :: "OrchestrationScheduler \<Rightarrow> string \<Rightarrow> error \<Rightarrow> OrchestrationScheduler" where
  "assign_failed this taskId e =
     this\<lparr> s_executionState := AList.update taskId failed (s_executionState this),
           s_events := s_events this @ [ev_task_assign_failed taskId e] \<rparr>"

text \<open>\<open>assignTask\<close>: the result is the rejection (rethrown by the \<open>catch\<close> block) or
  success, with the scheduler afterwards.\<close>

definition assignTask :: "Env \<Rightarrow> OrchestrationScheduler \<Rightarrow> string \<Rightarrow> (error + unit) \<times> OrchestrationScheduler" where
  "assignTask env this taskId =
     (case getTaskDetails (s_graph this) taskId of
        None \<Rightarrow> (Inl (TaskNotFound taskId), this)
      | Some taskDetails \<Rightarrow>
          (case spawnWorker (s_instanceManager this)
                  \<lparr> sp_taskId = taskId, sp_workingDir = n_workspacePath taskDetails,
                     sp_systemPrompt = n_instructions taskDetails, sp_mcpServers = None \<rparr>
                  (env_outcome env taskId) (env_now env) of
             (Inl e, im) \<Rightarrow> (Inl e, assign_failed (this\<lparr> s_instanceManager := im \<rparr>) taskId e)
           | (Inr worker, im) \<Rightarrow>
               (let this1 = this\<lparr> s_instanceManager := im,
                                  s_workerMapping := AList.update taskId (w_id worker) (s_workerMapping this),
                                  s_executionState := AList.update taskId running (s_executionState this) \<rparr>
                in case send (s_ipcChannel this1)
                          \<lparr> o_type = task_assignment, o_from = ''orchestrator'', o_to = w_id worker,
                             o_payload = [(''taskId'', taskId), (''instructions'', n_instructions taskDetails),
                                          (''workspacePath'', n_workspacePath taskDetails)]
                                         @ (case n_workerType taskDetails of None \<Rightarrow> [] | Some t \<Rightarrow> [(''workerType'', t)]),
                             o_correlationId = None \<rparr> (env_now env) of
                     (Inl e, ipc, out) \<Rightarrow>
                       (Inl e, assign_failed (this1\<lparr> s_ipcChannel := ipc, s_outputs := s_outputs this1 @ out \<rparr>) taskId e)
                   | (Inr u, ipc, out) \<Rightarrow>
                       (Inr (),
                        this1\<lparr> s_ipcChannel := ipc, s_outputs := s_outputs this1 @ out,
                               s_currentRPM := s_currentRPM this1 + rpm_of this1 (Some taskDetails),
                               s_events := s_events this1 @ [ev_task_assigned taskId (w_id worker)] \<rparr>))))"

text \<open>The loop \<open>for (const taskId of tasksToSpawn) await this.assignTask(taskId)\<close>: a
  rejection leaves the loop, and the ids after it are not visited.\<close>

fun assignAll :: "Env \<Rightarrow> string list \<Rightarrow> OrchestrationScheduler \<Rightarrow> error option \<times> OrchestrationScheduler" where
  "assignAll env [] this = (None, this)"
| "assignAll env (taskId # rest) this =
     (case assignTask env this taskId of
        (Inl e, this') \<Rightarrow> (Some e, this')
      | (Inr u, this') \<Rightarrow> assignAll env rest this')"

text \<open>The handlers of \<open>task-completed\<close> and \<open>task-failed\<close>. With a payload without
  \<open>taskId\<close> the id is \<open>undefined\<close>: the graph has no such node, the state is written under
  the key \<open>undefined\<close>, and the event carries \<open>undefined\<close>.\<close>

definition handleTaskCompleted :: "OrchestrationScheduler \<Rightarrow> IPCMessage \<Rightarrow> OrchestrationScheduler" where
  "handleTaskCompleted this msg =
     (case map_of (m_payload msg) ''taskId'' of
        None \<Rightarrow>
          this\<lparr> s_undefinedState := Some completed,
                s_currentRPM := max 0 (s_currentRPM this - rpm_of this None),
                s_events := s_events this @ [ev_task_completed None] \<rparr>
      | Some taskId \<Rightarrow>
          (let g = markCompleted (s_graph this) taskId
           in this\<lparr> s_graph := g,
                    s_executionState := AList.update taskId completed (s_executionState this),
                    s_currentRPM := max 0 (s_currentRPM this - rpm_of this (getTaskDetails g taskId)),
                    s_events := s_events this @ [ev_task_completed (Some taskId)] \<rparr>))"

definition handleTaskFailed :: "OrchestrationScheduler \<Rightarrow> IPCMessage \<Rightarrow> OrchestrationScheduler" where
  "handleTaskFailed this msg =
     (case map_of (m_payload msg) ''taskId'' of
        None \<Rightarrow>
          this\<lparr> s_undefinedState := Some failed,
                s_currentRPM := max 0 (s_currentRPM this - rpm_of this None),
                s_events := s_events this @ [ev_task_failed None (map_of (m_payload msg) ''error'')] \<rparr>
      | Some taskId \<Rightarrow>
          this\<lparr> s_executionState := AList.update taskId failed (s_executionState this),
                s_currentRPM := max 0 (s_currentRPM this - rpm_of this (getTaskDetails (s_graph this) taskId)),
                s_events := s_events this @ [ev_task_failed (Some taskId) (map_of (m_payload msg) ''error'')] \<rparr>)"

text \<open>A message reaches the orchestrator's server; the channel calls the registered
  handler. The flag tells whether \<open>task-completed\<close> or \<open>task-failed\<close> was emitted, which
  is what \<open>waitForTaskCompletion\<close> waits for.\<close>

fun run_handlers :: "ChannelOutput list \<Rightarrow> OrchestrationScheduler \<Rightarrow> bool \<times> OrchestrationScheduler" where
  "run_handlers [] this = (False, this)"
| "run_handlers (HandlerCall ty msg # outs) this =
     (if ty = task_completed
      then (True, snd (run_handlers outs (handleTaskCompleted this msg)))
      else if ty = task_failed
      then (True, snd (run_handlers outs (handleTaskFailed this msg)))
      else run_handlers outs this)"
| "run_handlers (out # outs) this = run_handlers outs this"

definition deliver :: "OrchestrationScheduler \<Rightarrow> IPCMessage \<Rightarrow> bool \<times> OrchestrationScheduler" where
  "deliver this msg =
     (case server_receive (s_ipcChannel this) msg of
        (ipc, outs) \<Rightarrow>
          run_handlers outs (this\<lparr> s_ipcChannel := ipc, s_outputs := s_outputs this @ outs \<rparr>))"

datatype run_result = RunCompleted | RunRejected error | RunSuspended

text \<open>The loop of \<open>start\<close>. While the loop runs it does not yield to the event loop, so
  messages are handled only while it waits in \<open>waitForTaskCompletion\<close>; the messages that
  arrive are the script, one handled per step of the wait. \<open>RunSuspended\<close> is the state of
  a run that waits when the script is exhausted; \<open>None\<close> is a run that never ends.\<close>

partial_function (option) run_loop ::
    "Env \<Rightarrow> IPCMessage list \<Rightarrow> bool \<Rightarrow> OrchestrationScheduler \<Rightarrow> (run_result \<times> OrchestrationScheduler) option" where
  "run_loop env script waiting this =
     (if waiting
      then (case script of
              [] \<Rightarrow> Some (RunSuspended, this)
            | msg # rest \<Rightarrow>
                (case deliver this msg of (woke, this') \<Rightarrow> run_loop env rest (\<not> woke) this'))
      else if allTasksComplete (s_graph this)
      then Some (RunCompleted, this\<lparr> s_events := s_events this @ [ev_completed] \<rparr>)
      else (let availableTasks =
                  filter (\<lambda>taskId. map_of (s_executionState this) taskId = Some pending)
                    (getIndependentTasks (s_graph this))
            in if availableTasks = [] then run_loop env script True this
               else (let availableWorkers = getAvailableWorkerCount this
                     in if availableWorkers = 0 then run_loop env script True this
                        else (case selectTasks (s_strategy this) availableTasks availableWorkers
                                     (Some (s_currentRPM this)) (Some (s_graph this)) of
                                None \<Rightarrow> None
                              | Some (Inl e) \<Rightarrow>
                                  Some (RunRejected e, this\<lparr> s_events := s_events this @ [ev_error e] \<rparr>)
                              | Some (Inr (tasksToSpawn, tasksAfter)) \<Rightarrow>
                                  (case assignAll env tasksToSpawn this of
                                     (Some e, this') \<Rightarrow>
                                       Some (RunRejected e, this'\<lparr> s_events := s_events this' @ [ev_error e] \<rparr>)
                                   | (None, this') \<Rightarrow>
                                       run_loop env script (tasksToSpawn = []) this')))))"

declare run_loop.simps [code]

definition start :: "Env \<Rightarrow> IPCMessage list \<Rightarrow> OrchestrationScheduler \<Rightarrow> (run_result \<times> OrchestrationScheduler) option" where
  "start env script this = run_loop env script False (this\<lparr> s_events := s_events this @ [ev_started] \<rparr>)"

text \<open>A scheduler for two independent tasks \<open>A\<close> and \<open>B\<close> under the max-parallel strategy,
  with a pool of \<open>maxWorkers = 5\<close>; and an environment in which the session of \<open>A\<close> times
  out while every other session is created.\<close>

definition example_scheduler :: OrchestrationScheduler where
  "example_scheduler =
     (case OrchestrationScheduler_new [mk_task ''A'' [], mk_task ''B'' []]
              \<lparr> opt_strategy = max_parallel, opt_maxRPM = None, opt_estimatedRPMPerTask = None \<rparr>
              \<lparr> workers = [], pim_config = \<lparr> maxWorkers = 5, spawnTimeout = 3000, autoCleanup = True \<rparr> \<rparr>
              example_channel of
        Some (Inr s) \<Rightarrow> s
      | _ \<Rightarrow> \<lparr> s_graph = [], s_strategy = MaxParallel,
               s_instanceManager = \<lparr> workers = [], pim_config = \<lparr> maxWorkers = 5, spawnTimeout = 3000, autoCleanup = True \<rparr> \<rparr>,
               s_ipcChannel = example_channel, s_executionState = [], s_undefinedState = None,
               s_workerMapping = [],
               s_currentRPM = 0,
               s_options = \<lparr> opt_strategy = max_parallel, opt_maxRPM = None, opt_estimatedRPMPerTask = None \<rparr>,
               s_events = [], s_outputs = [] \<rparr>)"

definition example_env :: Env where
  "example_env = \<lparr> env_outcome = (\<lambda>taskId. if taskId = ''A'' then TaskTimedOut else TaskCreated),
                   env_now = 1000 \<rparr>"


section \<open>ReviewCoordinator\<close>

text \<open>\<open>String.prototype.toLowerCase\<close> follows the Unicode case mapping of the runtime; the
  functions that call it take it as the parameter \<open>toLowerCase\<close>. On strings of ASCII
  characters it is \<open>ascii_toLowerCase\<close>, which the examples use.\<close>

definition ascii_toLowerCase_char :: "char \<Rightarrow> char" where
  "ascii_toLowerCase_char c =
     (if (65::nat) \<le> of_char c \<and> of_char c \<le> (90::nat) then char_of (of_char c + (32::nat)) else c)"

definition ascii_toLowerCase :: "string \<Rightarrow> string" where
  "ascii_toLowerCase s = map ascii_toLowerCase_char s"

text \<open>\<open>startsWith\<close> and \<open>includes\<close> on strings.\<close>

definition startsWith :: "string \<Rightarrow> string \<Rightarrow> bool" where
  "startsWith s p = (take (length p) s = p)"

fun js_includes :: "string \<Rightarrow> string \<Rightarrow> bool" where
  "js_includes [] p = (p = [])"
| "js_includes (c # cs) p = (startsWith (c # cs) p \<or> js_includes cs p)"

record ReviewRequest =
  rq_taskId :: string
  rq_workerId :: string
  rq_filesChanged :: "string list"
  rq_description :: string
  rq_specialization :: "string option"

record ReviewResponse =
  rs_reviewId :: string
  rs_reviewerId :: string
  rs_status :: string

record ReviewCoordinator =
  pendingReviews :: "string list"
  activeReviewers :: "(string \<times> string) list"
  rc_ipcChannel :: IPCChannel
  rc_instanceManager :: ParallelInstanceManager
  rc_outputs :: "ChannelOutput list"

definition selectSpecialization :: "(string \<Rightarrow> string) \<Rightarrow> string \<Rightarrow> string" where
  "selectSpecialization toLowerCase taskId =
     (let lower = toLowerCase taskId
      in if js_includes lower ''auth'' \<or> js_includes lower ''security'' \<or> js_includes lower ''login''
            \<or> js_includes lower ''password'' \<or> js_includes lower ''token'' \<or> js_includes lower ''encrypt''
         then ''security''
         else if js_includes lower ''optimize'' \<or> js_includes lower ''performance'' \<or> js_includes lower ''cache''
            \<or> js_includes lower ''query'' \<or> js_includes lower ''index'' \<or> js_includes lower ''batch''
         then ''performance''
         else ''style'')"

text \<open>\<open>ensureReviewerAvailable\<close>; \<open>uuid\<close> is the value of \<open>uuidv4()\<close>, \<open>outcome\<close> how the
  creation of the reviewer's session settles. An empty recorded id is falsy.\<close>

definition ensureReviewerAvailable ::
    "ReviewCoordinator \<Rightarrow> string \<Rightarrow> string \<Rightarrow> task_outcome \<Rightarrow> int \<Rightarrow> (error + string) \<times> ReviewCoordinator" where
  "ensureReviewerAvailable this specialization uuid outcome now =
     (let existingReviewer = map_of (activeReviewers this) specialization
      in if existingReviewer \<noteq> None \<and> existingReviewer \<noteq> Some []
         then (Inr (case existingReviewer of Some r \<Rightarrow> r | None \<Rightarrow> []), this)
         else (let reviewerId = ''reviewer-'' @ specialization @ ''-'' @ take 8 uuid
               in case spawnWorker (rc_instanceManager this)
                         \<lparr> sp_taskId = reviewerId, sp_workingDir = ''./'',
                            sp_systemPrompt = ''You are a '' @ specialization
                              @ '' code reviewer. Review code changes for quality and provide feedback.'',
                            sp_mcpServers = Some [] \<rparr> outcome now of
                    (Inl e, im) \<Rightarrow> (Inl e, this\<lparr> rc_instanceManager := im \<rparr>)
                  | (Inr worker, im) \<Rightarrow>
                      (Inr (w_id worker),
                       this\<lparr> rc_instanceManager := im,
                             activeReviewers := AList.update specialization (w_id worker) (activeReviewers this) \<rparr>)))"

text \<open>\<open>requestReview\<close>; \<open>reviewId\<close> is the first generated uuid.\<close>

definition requestReview ::
    "(string \<Rightarrow> string) \<Rightarrow> ReviewCoordinator \<Rightarrow> ReviewRequest \<Rightarrow> string \<Rightarrow> string \<Rightarrow> task_outcome \<Rightarrow> int
       \<Rightarrow> (error + ReviewResponse) \<times> ReviewCoordinator" where
  "requestReview toLowerCase this request reviewId uuid outcome now =
     (let specialization =
            (case rq_specialization request of
               None \<Rightarrow> selectSpecialization toLowerCase (rq_taskId request)
             | Some s \<Rightarrow> if s = [] then selectSpecialization toLowerCase (rq_taskId request) else s)
      in case ensureReviewerAvailable this specialization uuid outcome now of
           (Inl e, this1) \<Rightarrow> (Inl e, this1)
         | (Inr reviewerId, this1) \<Rightarrow>
             (case send (rc_ipcChannel this1)
                     \<lparr> o_type = review_request, o_from = rq_workerId request, o_to = reviewerId,
                        o_payload = [(''reviewId'', reviewId), (''taskId'', rq_taskId request),
                                     (''filesChanged'', concat (map (\<lambda>f. f @ '','') (rq_filesChanged request))),
                                     (''description'', rq_description request)],
                        o_correlationId = None \<rparr> now of
                (Inl e, ipc, out) \<Rightarrow>
                  (Inl e, this1\<lparr> rc_ipcChannel := ipc, rc_outputs := rc_outputs this1 @ out \<rparr>)
              | (Inr u, ipc, out) \<Rightarrow>
                  (Inr \<lparr> rs_reviewId = reviewId, rs_reviewerId = reviewerId, rs_status = ''pending'' \<rparr>,
                   this1\<lparr> rc_ipcChannel := ipc, rc_outputs := rc_outputs this1 @ out \<rparr>)))"





section \<open>WorkspaceAnalyzer\<close>

record WorkspaceAnalyzerConfig =
  strictMode :: bool
  allowNestedDirs :: bool
  supportWildcards :: bool

text \<open>The analyzer: its configuration, and the two things it takes from the runtime: whether
  \<open>process.platform\<close> is \<open>win32\<close>, and \<open>String.prototype.toLowerCase\<close>.\<close>

record WorkspaceAnalyzer =
  wa_config :: WorkspaceAnalyzerConfig
  wa_win32 :: bool
  wa_toLowerCase :: "string \<Rightarrow> string"

definition WorkspaceAnalyzer_new ::
    "bool option \<Rightarrow> bool option \<Rightarrow> bool option \<Rightarrow> bool \<Rightarrow> (string \<Rightarrow> string) \<Rightarrow> WorkspaceAnalyzer" where
  "WorkspaceAnalyzer_new strict nested wildcards win32 toLowerCase =
     \<lparr> wa_config = \<lparr> strictMode = (case strict of None \<Rightarrow> True | Some b \<Rightarrow> b),
                     allowNestedDirs = (case nested of None \<Rightarrow> False | Some b \<Rightarrow> b),
                     supportWildcards = (case wildcards of None \<Rightarrow> True | Some b \<Rightarrow> b) \<rparr>,
       wa_win32 = win32, wa_toLowerCase = toLowerCase \<rparr>"

datatype Severity = severity_error | severity_warning

record WorkspaceConflict =
  c_taskIds :: "string \<times> string"
  c_conflictPath :: string
  c_severity :: Severity
  c_description :: string

record WorkspaceValidation =
  isValid :: bool
  conflicts :: "WorkspaceConflict list"
  assignments :: "(string \<times> string) list"

text \<open>The fields of a \<open>TaskNode\<close> that the analyzer reads; the source checks
  \<open>workspacePath\<close> against \<open>undefined\<close> and \<open>null\<close>, so it is optional here.\<close>

record WorkspaceTask =
  wk_id :: string
  wk_workspacePath :: "string option"

text \<open>\<open>replace(/\/+/g, "/")\<close>.\<close>

fun collapse_slashes :: "string \<Rightarrow> string" where
  "collapse_slashes (a # b # cs) =
     (if a = CHR ''/'' \<and> b = CHR ''/'' then collapse_slashes (b # cs) else a # collapse_slashes (b # cs))"
| "collapse_slashes cs = cs"

definition normalizePath :: "WorkspaceAnalyzer \<Rightarrow> string \<Rightarrow> string" where
  "normalizePath this path =
     (if path = [] then ''/''
      else (let n1 = map (\<lambda>c. if c = CHR 0x5C then CHR ''/'' else c) path;
                n2 = (if length n1 > 1 then rev (dropWhile (\<lambda>c. c = CHR ''/'') (rev n1)) else n1);
                n3 = (if \<not> startsWith n2 ''/'' then ''/'' @ n2 else n2);
                n4 = (if wa_win32 this then wa_toLowerCase this n3 else n3)
            in collapse_slashes n4))"

text \<open>\<open>toRegex\<close>: every character that is special in a regular expression is escaped,
  except \<open>*\<close>; \<open>**\<close> becomes \<open>.*\<close> and a remaining \<open>*\<close> becomes \<open>[^/]*\<close>. The anchored
  regular expression is therefore a sequence of literal characters and the two wildcards.\<close>

datatype glob_token = Lit char | Star | DoubleStar

fun toRegex :: "string \<Rightarrow> glob_token list" where
  "toRegex (a # b # cs) =
     (if a = CHR ''*'' \<and> b = CHR ''*'' then DoubleStar # toRegex cs
      else if a = CHR ''*'' then Star # toRegex (b # cs)
      else Lit a # toRegex (b # cs))"
| "toRegex [a] = [if a = CHR ''*'' then Star else Lit a]"
| "toRegex [] = []"

text \<open>\<open>regex.test(s)\<close>: \<open>.\<close> matches every character but a line terminator, \<open>[^/]\<close>
  every character but \<open>/\<close>.\<close>

fun regex_test :: "glob_token list \<Rightarrow> string \<Rightarrow> bool" where
  "regex_test [] s = (s = [])"
| "regex_test (Lit c # ts) s = (case s of [] \<Rightarrow> False | x # xs \<Rightarrow> x = c \<and> regex_test ts xs)"
| "regex_test (Star # ts) s =
     (regex_test ts s \<or> (case s of [] \<Rightarrow> False | x # xs \<Rightarrow> x \<noteq> CHR ''/'' \<and> regex_test (Star # ts) xs))"
| "regex_test (DoubleStar # ts) s =
     (regex_test ts s \<or>
      (case s of [] \<Rightarrow> False
       | x # xs \<Rightarrow> x \<noteq> CHR 0x0A \<and> x \<noteq> CHR 0x0D \<and> regex_test (DoubleStar # ts) xs))"

definition wildcardConflict :: "string \<Rightarrow> string \<Rightarrow> bool" where
  "wildcardConflict path1 path2 =
     (let hasWildcard1 = CHR ''*'' \<in> set path1; hasWildcard2 = CHR ''*'' \<in> set path2
      in if \<not> hasWildcard1 \<and> \<not> hasWildcard2 then False
         else if hasWildcard1 \<and> regex_test (toRegex path1) path2 then True
         else if hasWildcard2 \<and> regex_test (toRegex path2) path1 then True
         else if hasWildcard1 \<and> hasWildcard2
              then (let base1 = takeWhile (\<lambda>c. c \<noteq> CHR ''*'') path1;
                        base2 = takeWhile (\<lambda>c. c \<noteq> CHR ''*'') path2
                    in startsWith base1 base2 \<or> startsWith base2 base1)
         else False)"

definition pathsConflict :: "WorkspaceAnalyzer \<Rightarrow> string \<Rightarrow> string \<Rightarrow> bool" where
  "pathsConflict this path1 path2 =
     (if path1 = path2 then True
      else if \<not> allowNestedDirs (wa_config this) \<and> (path1 = ''/'' \<or> path2 = ''/'') then True
      else if \<not> allowNestedDirs (wa_config this)
              \<and> (startsWith path1 (path2 @ ''/'') \<or> startsWith path2 (path1 @ ''/'')) then True
      else if supportWildcards (wa_config this) \<and> wildcardConflict path1 path2 then True
      else False)"

definition quoted :: "string \<Rightarrow> string" where
  "quoted s = [CHR 0x22] @ s @ [CHR 0x22]"

definition getConflictReason :: "string \<Rightarrow> string \<Rightarrow> string" where
  "getConflictReason path1 path2 =
     (if path1 = path2 then ''Identical paths: both tasks assigned to '' @ quoted path1
      else if startsWith path1 (path2 @ ''/'') then quoted path1 @ '' is nested under '' @ quoted path2
      else if startsWith path2 (path1 @ ''/'') then quoted path2 @ '' is nested under '' @ quoted path1
      else if CHR ''*'' \<in> set path1 \<or> CHR ''*'' \<in> set path2
           then ''Overlapping wildcard patterns: '' @ quoted path1 @ '' and '' @ quoted path2
      else ''Paths conflict'')"

definition checkConflict :: "WorkspaceAnalyzer \<Rightarrow> WorkspaceTask \<Rightarrow> WorkspaceTask \<Rightarrow> WorkspaceConflict option" where
  "checkConflict this task1 task2 =
     (case (wk_workspacePath task1, wk_workspacePath task2) of
        (Some w1, Some w2) \<Rightarrow>
          (let path1 = normalizePath this w1; path2 = normalizePath this w2
           in if pathsConflict this path1 path2
              then Some \<lparr> c_taskIds = (wk_id task1, wk_id task2),
                          c_conflictPath = (if path1 = path2 then path1 else path1 @ '' / '' @ path2),
                          c_severity = severity_error,
                          c_description = getConflictReason path1 path2 \<rparr>
              else None)
      | _ \<Rightarrow> None)"

text \<open>The double loop over the pairs \<open>i < j\<close>.\<close>

fun pair_conflicts :: "WorkspaceAnalyzer \<Rightarrow> WorkspaceTask list \<Rightarrow> WorkspaceConflict list" where
  "pair_conflicts this [] = []"
| "pair_conflicts this (task1 # rest) =
     concat (map (\<lambda>task2.
                if wk_workspacePath task1 = None \<or> wk_workspacePath task2 = None then []
                else (case checkConflict this task1 task2 of None \<Rightarrow> [] | Some conflict \<Rightarrow> [conflict]))
             rest)
       @ pair_conflicts this rest"

definition validateAssignments :: "WorkspaceAnalyzer \<Rightarrow> WorkspaceTask list \<Rightarrow> WorkspaceValidation" where
  "validateAssignments this tasks =
     (let assigned = fold (\<lambda>task m. case wk_workspacePath task of
                                        None \<Rightarrow> m
                                      | Some w \<Rightarrow> AList.update (wk_id task) w m) tasks [];
          found = pair_conflicts this tasks;
          valid = (if strictMode (wa_config this) then length found = 0
                   else length (filter (\<lambda>c. c_severity c = severity_error) found) = 0)
      in \<lparr> isValid = valid, conflicts = found, assignments = assigned \<rparr>)"

text \<open>The analyzer with the given strictness and the same other options.\<close>

definition with_strictMode :: "bool \<Rightarrow> WorkspaceAnalyzer \<Rightarrow> WorkspaceAnalyzer" where
  "with_strictMode b this = this\<lparr> wa_config := (wa_config this)\<lparr> strictMode := b \<rparr> \<rparr>"


text \<open>The default analyzer on a case-sensitive platform, and the tasks \<open>A\<close> in \<open>/src\<close> and
  \<open>B\<close> in \<open>/src/auth\<close>.\<close>

definition example_analyzer :: WorkspaceAnalyzer where
  "example_analyzer = WorkspaceAnalyzer_new None None None False ascii_toLowerCase"

definition example_workspace_tasks :: "WorkspaceTask list" where
  "example_workspace_tasks =
     [\<lparr> wk_id = ''A'', wk_workspacePath = Some ''/src'' \<rparr>,
      \<lparr> wk_id = ''B'', wk_workspacePath = Some ''/src/auth'' \<rparr>]"

section \<open>Properties of the RateLimiter\<close>

lemma foldl_count_sum: "foldl (\<lambda>sum r. sum + count r) a xs = a + sum_list (map count xs)"
  by (induction xs arbitrary: a) auto

lemma requests_checkThresholds [simp]: "requests (checkThresholds st p now) = requests st"
  by (simp add: checkThresholds_def Let_def split: option.splits)

lemma requests_init_fold:
  "\<forall>q h. map_of (requests st) q = Some h \<longrightarrow> h = [] \<Longrightarrow>
   map_of (requests (fold RateLimiter_init cfgs st)) q = Some h \<Longrightarrow> h = []"
proof (induction cfgs arbitrary: st)
  case Nil
  then show ?case by simp
next
  case (Cons c cfgs)
  have "\<forall>q h. map_of (requests (RateLimiter_init c st)) q = Some h \<longrightarrow> h = []"
    using Cons.prems(1) by (auto simp: RateLimiter_init_def update_conv' split: if_splits)
  then show ?case using Cons.IH Cons.prems(2) by simp
qed

lemma requests_new: "map_of (requests (RateLimiter_new cfgs)) p = Some h \<Longrightarrow> h = []"
  unfolding RateLimiter_new_def by (rule requests_init_fold[rotated]) auto

lemma track_new_history:
  "map_of (requests (track (RateLimiter_new cfgs) p c 0)) p = Some [\<lparr> timestamp = 0, count = c \<rparr>]"
proof (cases "map_of (requests (RateLimiter_new cfgs)) p")
  case None
  then show ?thesis by (simp add: track_def update_conv')
next
  case (Some h)
  then have "h = []" by (rule requests_new)
  with Some show ?thesis by (simp add: track_def update_conv')
qed

lemma getCurrentRPM_window_sum: "getCurrentRPM st p now = window_sum now (history_of st p)"
  by (simp add: getCurrentRPM_def foldl_count_sum window_sum_def history_of_def split: option.splits)

lemma findIndex_Some: "findIndex P xs = Some i \<Longrightarrow> i < length xs \<and> P (xs ! i)"
proof (induction xs arbitrary: i)
  case Nil
  then show ?case by simp
next
  case (Cons x xs)
  then show ?case by (auto split: if_splits option.splits)
qed

lemma window_sum_bump:
  "i < length h \<Longrightarrow>
   window_sum now (h[i := (h ! i)\<lparr> count := count (h ! i) + c \<rparr>])
     = window_sum now h + (if timestamp (h ! i) > now - 60000 then c else 0)"
proof (induction h arbitrary: i)
  case Nil
  then show ?case by simp
next
  case (Cons r h)
  show ?case
  proof (cases i)
    case 0
    then show ?thesis by (simp add: window_sum_def)
  next
    case (Suc j)
    then have "j < length h" using Cons.prems by simp
    from Cons.IH[OF this] show ?thesis using Suc by (simp add: window_sum_def)
  qed
qed

lemma history_track:
  "window_sum now (history_of (track st q c t) p)
     = window_sum now (history_of st p) + counted p now (q, c, t)"
proof (cases "q = p")
  case False
  then show ?thesis
    by (simp add: history_of_def track_def Let_def update_conv' counted_def)
next
  case True
  define h where "h = history_of st p"
  define ts where "ts = (t div 1000) * 1000"
  show ?thesis
  proof (cases "findIndex (\<lambda>r. timestamp r = ts) h")
    case None
    then have "history_of (track st q c t) p = h @ [\<lparr> timestamp = ts, count = c \<rparr>]"
      using True by (simp add: history_of_def track_def Let_def update_conv' h_def ts_def)
    then show ?thesis using True by (simp add: window_sum_def counted_def h_def ts_def)
  next
    case (Some i)
    then have i: "i < length h" "timestamp (h ! i) = ts" using findIndex_Some[OF Some] by auto
    have "history_of (track st q c t) p = h[i := (h ! i)\<lparr> count := count (h ! i) + c \<rparr>]"
      using True Some by (simp add: history_of_def track_def Let_def update_conv' h_def ts_def)
    then show ?thesis using True window_sum_bump[OF i(1), of now c] i(2)
      by (simp add: counted_def h_def ts_def)
  qed
qed

lemma track_all_sum:
  "window_sum now (history_of (track_all st reqs) p)
     = window_sum now (history_of st p) + sum_list (map (counted p now) reqs)"
proof (induction reqs arbitrary: st)
  case Nil
  then show ?case by simp
next
  case (Cons r reqs)
  obtain q c t where r: "r = (q, c, t)" by (cases r)
  show ?case using Cons.IH[of "track st q c t"] history_track[of now st q c t p] r by simp
qed

lemma history_new: "history_of (RateLimiter_new cfgs) p = []"
  using requests_new[of cfgs p] by (cases "map_of (requests (RateLimiter_new cfgs)) p") (auto simp: history_of_def)

text \<open>Claim C7. For every provider and every limiter state, \<open>getCurrentRPM\<close> is the sum of
  the counts of exactly those per-second buckets of the provider whose timestamp is strictly
  greater than \<open>now - 60000\<close>; after any sequence of \<open>track\<close> calls on a fresh limiter it is
  the sum of the counts of the calls for that provider whose second lies strictly inside the
  window. In particular one request tracked at \<open>t = 0\<close> is no longer counted when read at
  \<open>t = 60000\<close> (the result is 0), while it is still counted one millisecond earlier.\<close>

theorem getCurrentRPM_window:
  "getCurrentRPM st p now =
     sum_list (map count (filter (\<lambda>r. timestamp r > now - 60000) (history_of st p)))
   \<and> getCurrentRPM (track_all (RateLimiter_new cfgs) reqs) p now = sum_list (map (counted p now) reqs)
   \<and> getCurrentRPM (track (RateLimiter_new cfgs) p 1 0) p 60000 = 0
   \<and> getCurrentRPM (track (RateLimiter_new cfgs) p 1 0) p 59999 = 1"
proof -
  have a: "getCurrentRPM (track_all (RateLimiter_new cfgs) reqs) p now = sum_list (map (counted p now) reqs)"
  proof -
    have "window_sum now (history_of (RateLimiter_new cfgs) p) = 0"
      by (simp add: history_new window_sum_def)
    then show ?thesis
      using track_all_sum[of now "RateLimiter_new cfgs" reqs p] by (simp add: getCurrentRPM_window_sum)
  qed
  have b: "getCurrentRPM (track (RateLimiter_new cfgs) p 1 0) p 60000 = 0"
    using history_track[of 60000 "RateLimiter_new cfgs" p 1 0 p]
    by (simp add: getCurrentRPM_window_sum history_new counted_def) (simp add: window_sum_def)
  have c: "getCurrentRPM (track (RateLimiter_new cfgs) p 1 0) p 59999 = 1"
    using history_track[of 59999 "RateLimiter_new cfgs" p 1 0 p]
    by (simp add: getCurrentRPM_window_sum history_new counted_def) (simp add: window_sum_def)
  show ?thesis using a b c by (simp add: getCurrentRPM_window_sum window_sum_def)
qed

section \<open>Properties of the TaskGraph constructor\<close>


lemma good_reach:
  assumes "(a, b) \<in> (E g)\<^sup>*" and "good g V" and "a \<in> V"
  shows "b \<in> V"
  using assms by (induction rule: rtrancl_induct) (auto simp: good_def)

lemma good_insert:
  assumes "good g V" and deps: "\<forall>d. (x, d) \<in> E g \<longrightarrow> d \<in> V"
  shows "good g (insert x V)"
proof (cases "x \<in> V")
  case True
  then show ?thesis using assms by (simp add: insert_absorb)
next
  case False
  have "(x, x) \<notin> (E g)\<^sup>+"
  proof
    assume "(x, x) \<in> (E g)\<^sup>+"
    then obtain d where "(x, d) \<in> E g" "(d, x) \<in> (E g)\<^sup>*"
      by (meson tranclD)
    then have "x \<in> V" using deps good_reach[OF _ assms(1)] by blast
    with False show False by simp
  qed
  then show ?thesis using assms by (auto simp: good_def)
qed

lemma deps_frame_from_dfs:
  assumes D: "\<And>x path S V S' V'. dfs n g x path (S, V) = Some (Inr (S', V')) \<Longrightarrow>
       S' = S \<and> V \<subseteq> V' \<and> x \<in> V' \<and> (good g V \<longrightarrow> good g V')"
  shows "dfs_deps n g ds path (S, V) = Some (Inr (S', V')) \<Longrightarrow>
       S' = S \<and> V \<subseteq> V' \<and> set ds \<subseteq> V' \<and> (good g V \<longrightarrow> good g V')"
proof (induction ds arbitrary: S V)
  case Nil
  then show ?case by simp
next
  case (Cons d ds)
  then obtain S1 V1 where r1: "dfs n g d path (S, V) = Some (Inr (S1, V1))"
    and r2: "dfs_deps n g ds path (S1, V1) = Some (Inr (S', V'))"
    by (auto split: option.splits sum.splits)
  from D[OF r1] Cons.IH[OF r2] show ?case by auto
qed

lemma dfs_frame:
  "dfs n g x path (S, V) = Some (Inr (S', V')) \<Longrightarrow>
     S' = S \<and> V \<subseteq> V' \<and> x \<in> V' \<and> (good g V \<longrightarrow> good g V')"
proof (induction n arbitrary: x path S V S' V')
  case 0
  then show ?case by simp
next
  case (Suc n)
  show ?case
  proof (cases "x \<in> S \<or> x \<in> V")
    case True
    then show ?thesis using Suc.prems by (auto split: if_splits)
  next
    case False
    then obtain node S1 V1 where node: "map_of g x = Some node"
      and r: "dfs_deps n g (n_dependencies node) (path @ [x]) (insert x S, V) = Some (Inr (S1, V1))"
      and res: "S' = S1 - {x}" "V' = insert x V1"
      using Suc.prems by (auto split: option.splits sum.splits)
    have "S1 = insert x S \<and> V \<subseteq> V1 \<and> set (n_dependencies node) \<subseteq> V1
        \<and> (good g V \<longrightarrow> good g V1)"
      by (rule deps_frame_from_dfs[OF _ r]) (rule Suc.IH)
    then have f: "S1 = insert x S" "V \<subseteq> V1" "set (n_dependencies node) \<subseteq> V1"
        "good g V \<longrightarrow> good g V1"
      by blast+
    have "good g V \<Longrightarrow> good g (insert x V1)"
      using f node by (intro good_insert) (auto simp: E_def)
    then show ?thesis using f res False by auto
  qed
qed

lemmas dfs_deps_frame = deps_frame_from_dfs[OF dfs_frame]


lemma deps_throw_from_dfs:
  assumes D: "\<And>x path S V e. map_of g x \<noteq> None \<Longrightarrow> \<forall>y \<in> S. (y, x) \<in> (E g)\<^sup>+ \<Longrightarrow>
       dfs n g x path (S, V) = Some (Inl e) \<Longrightarrow> cycle_error g e"
  shows "\<forall>d \<in> set ds. map_of g d \<noteq> None \<Longrightarrow> \<forall>y \<in> S. \<forall>d \<in> set ds. (y, d) \<in> (E g)\<^sup>+ \<Longrightarrow>
       dfs_deps n g ds path (S, V) = Some (Inl e) \<Longrightarrow> cycle_error g e"
proof (induction ds arbitrary: V)
  case Nil
  then show ?case by simp
next
  case (Cons d ds)
  show ?case
  proof (cases "dfs n g d path (S, V)")
    case None
    then show ?thesis using Cons.prems by simp
  next
    case (Some r)
    show ?thesis
    proof (cases r)
      case (Inl e')
      then have "dfs n g d path (S, V) = Some (Inl e)" using Some Cons.prems by simp
      then show ?thesis using D[of d S path V e] Cons.prems by simp
    next
      case (Inr s')
      obtain S1 V1 where s': "s' = (S1, V1)" by (cases s')
      have "S1 = S" using dfs_frame[of n g d path S V S1 V1] Some Inr s' by simp
      then have "dfs_deps n g ds path (S, V1) = Some (Inl e)"
        using Cons.prems Some Inr s' by simp
      then show ?thesis using Cons.IH[of V1] Cons.prems by simp
    qed
  qed
qed

lemma dfs_throw:
  "closedg g \<Longrightarrow> map_of g x \<noteq> None \<Longrightarrow> \<forall>y \<in> S. (y, x) \<in> (E g)\<^sup>+ \<Longrightarrow>
   dfs n g x path (S, V) = Some (Inl e) \<Longrightarrow> cycle_error g e"
proof (induction n arbitrary: x path S V e)
  case 0
  then show ?case by simp
next
  case (Suc n)
  show ?case
  proof (cases "x \<in> S")
    case True
    then have "e = CircularDependency (path @ [x])" "(x, x) \<in> (E g)\<^sup>+"
      using Suc.prems by auto
    then show ?thesis by (auto simp: cycle_error_def)
  next
    case False
    then have xV: "x \<notin> V" using Suc.prems by (auto split: if_splits)
    obtain node where node: "map_of g x = Some node" using Suc.prems by auto
    have r: "dfs_deps n g (n_dependencies node) (path @ [x]) (insert x S, V) = Some (Inl e)"
      using Suc.prems(4) False xV node by (auto split: option.splits sum.splits)
    have edge: "\<forall>d \<in> set (n_dependencies node). (x, d) \<in> E g"
      using node by (auto simp: E_def)
    have ex: "\<forall>d \<in> set (n_dependencies node). map_of g d \<noteq> None"
      using edge Suc.prems(1) by (auto simp: closedg_def)
    have reach: "\<forall>y \<in> insert x S. \<forall>d \<in> set (n_dependencies node). (y, d) \<in> (E g)\<^sup>+"
      using edge Suc.prems(3) by (auto intro: trancl_into_trancl)
    show ?thesis
      by (rule deps_throw_from_dfs[OF _ ex reach r]) (rule Suc.IH[OF Suc.prems(1)])
  qed
qed

lemma deps_fuel_from_dfs:
  assumes D: "\<And>x path V. dfs n g x path (S, V) \<noteq> None"
  shows "dfs_deps n g ds path (S, V) \<noteq> None"
proof (induction ds arbitrary: V)
  case Nil
  then show ?case by simp
next
  case (Cons d ds)
  obtain r where r: "dfs n g d path (S, V) = Some r" using D[of d path V] by auto
  show ?case
  proof (cases r)
    case (Inl e)
    then show ?thesis using r by simp
  next
    case (Inr s')
    obtain S1 V1 where s': "s' = (S1, V1)" by (cases s')
    have "S1 = S" using dfs_frame[of n g d path S V S1 V1] r Inr s' by simp
    then show ?thesis using Cons.IH[of V1] r Inr s' by simp
  qed
qed

lemma dfs_fuel:
  "S \<subseteq> dom (map_of g) \<Longrightarrow> card (dom (map_of g)) < n + card S \<Longrightarrow> dfs n g x path (S, V) \<noteq> None"
proof (induction n arbitrary: x path S V)
  case 0
  have "card S \<le> card (dom (map_of g))"
    using 0(1) by (simp add: card_mono finite_dom_map_of)
  then show ?case using 0(2) by simp
next
  case (Suc n)
  show ?case
  proof (cases "x \<in> S \<or> x \<in> V \<or> map_of g x = None")
    case True
    then show ?thesis by auto
  next
    case False
    then obtain node where node: "map_of g x = Some node" by auto
    have fin: "finite S" using Suc.prems(1) finite_dom_map_of finite_subset by blast
    have sub: "insert x S \<subseteq> dom (map_of g)" using Suc.prems(1) node by auto
    have c: "card (dom (map_of g)) < n + card (insert x S)"
      using Suc.prems(2) False fin by simp
    have "dfs_deps n g (n_dependencies node) (path @ [x]) (insert x S, V) \<noteq> None"
      by (rule deps_fuel_from_dfs) (rule Suc.IH[OF sub c])
    then show ?thesis using False node by (auto split: sum.splits)
  qed
qed

lemma loop_frame:
  "forEach (loop_body n g) ks ({}, V) = Some (Inr (S', V')) \<Longrightarrow>
     S' = {} \<and> V \<subseteq> V' \<and> set ks \<subseteq> V' \<and> (good g V \<longrightarrow> good g V')"
proof (induction ks arbitrary: V)
  case Nil
  then show ?case by simp
next
  case (Cons k ks)
  then obtain S1 V1 where r1: "loop_body n g k ({}, V) = Some (Inr (S1, V1))"
    and r2: "forEach (loop_body n g) ks (S1, V1) = Some (Inr (S', V'))"
    by (auto split: option.splits sum.splits)
  have "S1 = {} \<and> V \<subseteq> V1 \<and> k \<in> V1 \<and> (good g V \<longrightarrow> good g V1)"
    using r1 dfs_frame[of n g k "[]" "{}" V S1 V1] by (auto simp: loop_body_def split: if_splits)
  then show ?case using Cons.IH[of V1] r2 by auto
qed

lemma loop_throw:
  "closedg g \<Longrightarrow> \<forall>k \<in> set ks. map_of g k \<noteq> None \<Longrightarrow>
   forEach (loop_body n g) ks ({}, V) = Some (Inl e) \<Longrightarrow> cycle_error g e"
proof (induction ks arbitrary: V)
  case Nil
  then show ?case by simp
next
  case (Cons k ks)
  show ?case
  proof (cases "loop_body n g k ({}, V)")
    case None
    then show ?thesis using Cons.prems by simp
  next
    case (Some r)
    show ?thesis
    proof (cases r)
      case (Inl e')
      then have "dfs n g k [] ({}, V) = Some (Inl e)"
        using Some Cons.prems(3) by (auto simp: loop_body_def split: if_splits)
      then show ?thesis using dfs_throw[of g k "{}" n "[]" V e] Cons.prems by simp
    next
      case (Inr s')
      obtain S1 V1 where s': "s' = (S1, V1)" by (cases s')
      have "S1 = {}"
        using Some Inr s' dfs_frame[of n g k "[]" "{}" V S1 V1]
        by (auto simp: loop_body_def split: if_splits)
      then have "forEach (loop_body n g) ks ({}, V1) = Some (Inl e)"
        using Cons.prems(3) Some Inr s' by simp
      then show ?thesis using Cons.IH[of V1] Cons.prems by simp
    qed
  qed
qed

lemma loop_fuel:
  "card (dom (map_of g)) < n \<Longrightarrow> forEach (loop_body n g) ks ({}, V) \<noteq> None"
proof (induction ks arbitrary: V)
  case Nil
  then show ?case by simp
next
  case (Cons k ks)
  have "dfs n g k [] ({}, V) \<noteq> None" using dfs_fuel[of "{}" g n k "[]" V] Cons.prems by simp
  then have "loop_body n g k ({}, V) \<noteq> None"
    by (simp add: loop_body_def)
  then obtain r where r: "loop_body n g k ({}, V) = Some r"
    by blast
  show ?case
  proof (cases r)
    case (Inl e)
    then show ?thesis using r by simp
  next
    case (Inr s')
    obtain S1 V1 where s': "s' = (S1, V1)" by (cases s')
    have "S1 = {}"
      using r Inr s' dfs_frame[of n g k "[]" "{}" V S1 V1]
      by (auto simp: loop_body_def split: if_splits)
    then show ?thesis using Cons.IH[of V1] Cons.prems r Inr s' by simp
  qed
qed

lemma card_dom_map_of: "card (dom (map_of g)) \<le> length g"
proof -
  have "card (dom (map_of g)) = card (fst ` set g)" by (simp add: dom_map_of_conv_image_fst)
  also have "\<dots> \<le> card (set g)" by (rule card_image_le) simp
  also have "\<dots> \<le> length g" by (rule card_length)
  finally show ?thesis .
qed

lemma validateNoCycles_loop:
  "validateNoCycles g =
     (case forEach (loop_body (Suc (length g)) g) (map fst g) ({}, {}) of
        None \<Rightarrow> None | Some (Inl e) \<Rightarrow> Some (Inl e) | Some (Inr s) \<Rightarrow> Some (Inr ()))"
  by (simp add: validateNoCycles_def loop_body_def)

lemma validateNoCycles_total: "validateNoCycles g \<noteq> None"
proof -
  have "card (dom (map_of g)) < Suc (length g)" using card_dom_map_of[of g] by simp
  from loop_fuel[OF this, of "map fst g" "{}"] show ?thesis
    by (auto simp: validateNoCycles_loop split: option.splits sum.splits)
qed

lemma validateNoCycles_ok:
  assumes "validateNoCycles g = Some (Inr u)"
  shows "(x, x) \<notin> (E g)\<^sup>+"
proof
  assume cyc: "(x, x) \<in> (E g)\<^sup>+"
  obtain S' V' where r: "forEach (loop_body (Suc (length g)) g) (map fst g) ({}, {}) = Some (Inr (S', V'))"
    using assms by (auto simp: validateNoCycles_loop split: option.splits sum.splits)
  have "good g {}" by (simp add: good_def)
  with loop_frame[OF r] have keys: "set (map fst g) \<subseteq> V'" and g: "good g V'" by auto
  from cyc obtain d where "(x, d) \<in> E g" by (meson tranclD)
  then have "map_of g x \<noteq> None" by (auto simp: E_def)
  then have "x \<in> fst ` set g" by (metis domIff dom_map_of_conv_image_fst)
  then have "x \<in> V'" using keys by auto
  then show False using g cyc by (auto simp: good_def)
qed

lemma validateNoCycles_throw:
  assumes "closedg g" and "validateNoCycles g = Some (Inl e)"
  shows "cycle_error g e"
proof -
  have r: "forEach (loop_body (Suc (length g)) g) (map fst g) ({}, {}) = Some (Inl e)"
    using assms(2) by (auto simp: validateNoCycles_loop split: option.splits sum.splits)
  have "\<forall>k \<in> set (map fst g). map_of g k \<noteq> None"
    by (metis domIff dom_map_of_conv_image_fst set_map)
  from loop_throw[OF assms(1) this r] show ?thesis .
qed


lemma update_fresh: "k \<notin> fst ` set al \<Longrightarrow> AList.update k v al = al @ [(k, v)]"
  by (induction al) auto

lemma createNodes_fold:
  "distinct (map fst acc @ map t_id tasks) \<Longrightarrow>
   fold (\<lambda>task g. AList.update (t_id task) (node_of_task task) g) tasks acc
     = acc @ map (\<lambda>t. (t_id t, node_of_task t)) tasks"
proof (induction tasks arbitrary: acc)
  case Nil
  then show ?case by simp
next
  case (Cons t tasks)
  have fresh: "t_id t \<notin> fst ` set acc" using Cons.prems by auto
  have "distinct (map fst (acc @ [(t_id t, node_of_task t)]) @ map t_id tasks)"
    using Cons.prems by auto
  from Cons.IH[OF this] show ?case by (simp add: update_fresh[OF fresh])
qed

lemma createNodes_distinct:
  "distinct (map t_id tasks) \<Longrightarrow> createNodes tasks = map (\<lambda>t. (t_id t, node_of_task t)) tasks"
  using createNodes_fold[of "[]" tasks] by (simp add: createNodes_def)

lemma set_fold_set_add: "set (fold set_add xs acc) = set acc \<union> set xs"
  by (induction xs arbitrary: acc) (auto simp: set_add_def)

lemma set_new_Set [simp]: "set (new_Set xs) = set xs"
  by (simp add: new_Set_def set_fold_set_add)

lemma map_of_createNodes:
  assumes "distinct (map t_id tasks)"
  shows "map_of (createNodes tasks) x = Some node \<longleftrightarrow> (\<exists>t \<in> set tasks. t_id t = x \<and> node = node_of_task t)"
proof -
  have d: "distinct (map fst (map (\<lambda>t. (t_id t, node_of_task t)) tasks))"
    using assms by (simp add: comp_def)
  show ?thesis
    unfolding createNodes_distinct[OF assms] map_of_eq_Some_iff[OF d] by auto
qed

lemma E_createNodes:
  assumes "distinct (map t_id tasks)"
  shows "E (createNodes tasks) = dep_rel tasks"
  unfolding E_def dep_rel_def map_of_createNodes[OF assms]
  by (auto simp: node_of_task_def)

lemma set_dependency_edges:
  assumes "distinct (map t_id tasks)"
  shows "set (dependency_edges (createNodes tasks)) = dep_rel tasks"
  unfolding createNodes_distinct[OF assms] dependency_edges_def dep_rel_def
  by (auto simp: node_of_task_def)

lemma dom_createNodes:
  assumes "distinct (map t_id tasks)"
  shows "map_of (createNodes tasks) d = None \<longleftrightarrow> d \<notin> t_id ` set tasks"
  unfolding createNodes_distinct[OF assms] map_of_eq_None_iff by force

lemma map_fst_update: "map_of al k = Some v \<Longrightarrow> map fst (AList.update k v' al) = map fst al"
  by (induction al) (auto split: if_splits)

lemma same_deps_E: "same_deps g g' \<Longrightarrow> E g' = E g"
proof -
  assume a: "same_deps g g'"
  have "(\<exists>node. map_of g' x = Some node \<and> d \<in> set (n_dependencies node)) \<longleftrightarrow>
        (\<exists>node. map_of g x = Some node \<and> d \<in> set (n_dependencies node))" for x d
  proof -
    have "map_option n_dependencies (map_of g' x) = map_option n_dependencies (map_of g x)"
      using a by (simp add: same_deps_def)
    then show ?thesis by (cases "map_of g' x"; cases "map_of g x") auto
  qed
  then show ?thesis by (simp add: E_def)
qed

lemma same_deps_dom: "same_deps g g' \<Longrightarrow> map_of g' k = None \<longleftrightarrow> map_of g k = None"
  by (metis map_option_is_None same_deps_def)

lemma addDependents_Inr:
  "addDependents es g = Inr g' \<Longrightarrow> same_deps g g' \<and> (\<forall>(a, d) \<in> set es. map_of g d \<noteq> None)"
proof (induction es arbitrary: g)
  case Nil
  then show ?case by (simp add: same_deps_def)
next
  case (Cons p es)
  obtain a d where p: "p = (a, d)" by (cases p)
  obtain depNode where dn: "map_of g d = Some depNode"
    using Cons.prems p by (auto split: option.splits)
  let ?g1 = "AList.update d (depNode\<lparr> n_dependents := set_add a (n_dependents depNode) \<rparr>) g"
  have r: "addDependents es ?g1 = Inr g'" using Cons.prems p dn by simp
  have s1: "same_deps g ?g1"
    using dn by (auto simp: same_deps_def map_fst_update update_conv')
  from Cons.IH[OF r] have s2: "same_deps ?g1 g'" and ex: "\<forall>(a, d) \<in> set es. map_of ?g1 d \<noteq> None"
    by auto
  have "same_deps g g'" using s1 s2 by (auto simp: same_deps_def)
  moreover have "\<forall>(a, d) \<in> set es. map_of g d \<noteq> None"
    using ex same_deps_dom[OF s1] by auto
  ultimately show ?case using p dn by auto
qed

lemma addDependents_Inl:
  "addDependents es g = Inl e \<Longrightarrow> \<exists>(a, d) \<in> set es. map_of g d = None \<and> e = NonExistentDependency a d"
proof (induction es arbitrary: g)
  case Nil
  then show ?case by simp
next
  case (Cons p es)
  obtain a d where p: "p = (a, d)" by (cases p)
  show ?case
  proof (cases "map_of g d")
    case None
    then show ?thesis using Cons.prems p by auto
  next
    case (Some depNode)
    let ?g1 = "AList.update d (depNode\<lparr> n_dependents := set_add a (n_dependents depNode) \<rparr>) g"
    have r: "addDependents es ?g1 = Inl e" using Cons.prems p Some by simp
    have s1: "same_deps g ?g1"
      using Some by (auto simp: same_deps_def map_fst_update update_conv')
    from Cons.IH[OF r] same_deps_dom[OF s1] show ?thesis by auto
  qed
qed

lemma buildGraph_Inl:
  assumes "distinct (map t_id tasks)" and "buildGraph tasks = Inl e"
  shows "dangling tasks \<and> is_InvalidGraphError e"
proof -
  from assms(2) obtain a d where "(a, d) \<in> set (dependency_edges (createNodes tasks))"
    and "map_of (createNodes tasks) d = None" and e: "e = NonExistentDependency a d"
    using addDependents_Inl[of "dependency_edges (createNodes tasks)" "createNodes tasks" e]
    by (auto simp: buildGraph_def Let_def)
  then have "(a, d) \<in> dep_rel tasks" "d \<notin> t_id ` set tasks"
    using set_dependency_edges[OF assms(1)] dom_createNodes[OF assms(1)] by auto
  then show ?thesis using e by (auto simp: dangling_def dep_rel_def)
qed

lemma buildGraph_Inr:
  assumes "distinct (map t_id tasks)" and "buildGraph tasks = Inr g"
  shows "\<not> dangling tasks \<and> E g = dep_rel tasks \<and> closedg g"
proof -
  let ?g0 = "createNodes tasks"
  from assms(2) have s: "same_deps ?g0 g" and ex: "\<forall>(a, d) \<in> set (dependency_edges ?g0). map_of ?g0 d \<noteq> None"
    using addDependents_Inr[of "dependency_edges ?g0" ?g0 g] by (auto simp: buildGraph_def Let_def)
  have Eg: "E g = dep_rel tasks" using same_deps_E[OF s] E_createNodes[OF assms(1)] by simp
  have ex': "\<forall>(a, d) \<in> dep_rel tasks. d \<in> t_id ` set tasks"
    using ex set_dependency_edges[OF assms(1)] dom_createNodes[OF assms(1)] by auto
  then have nd: "\<not> dangling tasks" by (auto simp: dangling_def dep_rel_def)
  have "closedg g"
    unfolding closedg_def Eg using ex' same_deps_dom[OF s] dom_createNodes[OF assms(1)] by auto
  with Eg nd show ?thesis by simp
qed

text \<open>Claim C5. For a task list with unique ids (the invariant of the input), the
  constructor fails, and then with one of the two errors that make up \<open>InvalidGraphError\<close>,
  exactly when some task lists a dependency that is absent from the list or the dependency
  relation has a cycle; it returns a graph exactly when the list is free of both (so it always
  returns). A self-loop is rejected as a circular dependency.\<close>

theorem TaskGraph_new_fails_iff:
  assumes "distinct (map t_id tasks)"
  shows "((\<exists>e. TaskGraph_new tasks = Some (Inl e) \<and> is_InvalidGraphError e) \<longleftrightarrow> dangling tasks \<or> cyclic tasks)
     \<and> ((\<exists>g. TaskGraph_new tasks = Some (Inr g)) \<longleftrightarrow> \<not> dangling tasks \<and> \<not> cyclic tasks)
     \<and> TaskGraph_new [\<lparr> t_id = a, t_dependencies = [a], t_instructions = i, t_workspacePath = w,
                        t_workerType = wt, t_estimatedRPM = r \<rparr>] = Some (Inl (CircularDependency [a, a]))"
proof -
  have selfloop: "TaskGraph_new [\<lparr> t_id = a, t_dependencies = [a], t_instructions = i, t_workspacePath = w,
                        t_workerType = wt, t_estimatedRPM = r \<rparr>] = Some (Inl (CircularDependency [a, a]))"
    by (simp add: TaskGraph_new_def buildGraph_def createNodes_def dependency_edges_def
        node_of_task_def new_Set_def set_add_def validateNoCycles_def)
  show ?thesis
  proof (cases "buildGraph tasks")
    case (Inl e)
    from buildGraph_Inl[OF assms Inl] show ?thesis
      using Inl selfloop by (auto simp: TaskGraph_new_def)
  next
    case (Inr g)
    from buildGraph_Inr[OF assms Inr] have nd: "\<not> dangling tasks" and Eg: "E g = dep_rel tasks"
      and cl: "closedg g" by auto
    obtain r where r: "validateNoCycles g = Some r" using validateNoCycles_total[of g] by auto
    show ?thesis
    proof (cases r)
      case (Inl e)
      from validateNoCycles_throw[OF cl] r Inl have "cycle_error g e" by simp
      then have "cyclic tasks" "is_InvalidGraphError e"
        by (auto simp: cycle_error_def cyclic_def Eg)
      then show ?thesis using Inr r Inl selfloop by (auto simp: TaskGraph_new_def)
    next
      case (Inr u)
      from validateNoCycles_ok[of g u] r Inr have "\<not> cyclic tasks"
        by (auto simp: cyclic_def Eg)
      then show ?thesis using nd \<open>buildGraph tasks = Inr g\<close> r Inr selfloop
        by (auto simp: TaskGraph_new_def)
    qed
  qed
qed

theorem TaskGraph_new_fails_iff_witness:
  "distinct (map t_id [mk_task ''A'' [], mk_task ''B'' [''A''], mk_task ''C'' [''A''],
                       mk_task ''D'' [''B'', ''C'']])
   \<and> (\<exists>g. TaskGraph_new [mk_task ''A'' [], mk_task ''B'' [''A''], mk_task ''C'' [''A''],
                       mk_task ''D'' [''B'', ''C'']] = Some (Inr g))
   \<and> \<not> dangling [mk_task ''A'' [], mk_task ''B'' [''A''], mk_task ''C'' [''A''],
                       mk_task ''D'' [''B'', ''C'']]
   \<and> \<not> cyclic [mk_task ''A'' [], mk_task ''B'' [''A''], mk_task ''C'' [''A''],
                       mk_task ''D'' [''B'', ''C'']]"
proof -
  let ?ts = "[mk_task ''A'' [], mk_task ''B'' [''A''], mk_task ''C'' [''A''],
              mk_task ''D'' [''B'', ''C'']]"
  have d: "distinct (map t_id ?ts)" by (simp add: mk_task_def)
  have ev: "\<exists>g. TaskGraph_new ?ts = Some (Inr g)"
    by (simp add: TaskGraph_new_def buildGraph_def createNodes_def dependency_edges_def
        node_of_task_def new_Set_def set_add_def validateNoCycles_def mk_task_def)
  show ?thesis using TaskGraph_new_fails_iff[OF d] d ev by blast
qed

section \<open>Properties of the scheduling strategies\<close>


subsection \<open>Division and subtraction of doubles are exact below \<open>2^53\<close>\<close>






lemma round_half_even_zero [simp]: "round_half_even 0 = 0"
  by (simp add: round_half_even_def)

lemma scale_up_zero [simp]: "scale_up 0 b k = k"
  by (subst scale_up.simps) simp

lemma double_div_zero [simp]: "0 < b \<Longrightarrow> double_div 0 b = 0"
  by (simp add: double_div_def)
















text \<open>Beyond \<open>2^53\<close> the rounding shows: the quotient below is just under 3 and rounds to
  3, so three tasks are selected where the exact quotient would allow two.\<close>

lemma RateAware_rounded_quotient:
  "fst (selectTasks_RateAware \<lparr> maxRPM = 13510798882111490, estimatedRPMPerTask = 4503599627370497 \<rparr>
          [''A'', ''B'', ''C''] 10 (Some 0)) = [''A'', ''B'', ''C'']
   \<and> (13510798882111490 :: int) div 4503599627370497 = 2"
  by code_simp




text \<open>Claim C4. The strategies that only call \<open>slice\<close> leave \<open>availableTasks\<close> as it was:
  MaxParallel, RateAware, and CriticalPath when no graph is supplied. CriticalPath with a
  graph calls \<open>availableTasks.sort\<close>, which sorts the caller's array in place: on the ready
  list \<open>D, B\<close> of the example graph the array is \<open>B, D\<close> after the call.\<close>

theorem CriticalPath_sorts_input_in_place:
  "snd (selectTasks_MaxParallel availableTasks availableWorkers) = availableTasks
   \<and> snd (selectTasks_RateAware this availableTasks availableWorkers currentRPM) = availableTasks
   \<and> selectTasks_CriticalPath availableTasks availableWorkers currentRPM None
        = Some (Inr (js_slice0 availableTasks (Num availableWorkers), availableTasks))
   \<and> selectTasks CriticalPath [''D'', ''B''] 1 None (Some example_graph)
        = Some (Inr ([''B''], [''B'', ''D'']))"
proof -
  have "selectTasks CriticalPath [''D'', ''B''] 1 None (Some example_graph)
        = Some (Inr ([''B''], [''B'', ''D'']))"
    by code_simp
  then show ?thesis
    by (simp add: selectTasks_MaxParallel_def selectTasks_RateAware_def
        selectTasks_CriticalPath_def Let_def)
qed


section \<open>Properties of the ParallelInstanceManager\<close>

lemma terminateWorker_untracked:
  "map_of (workers this) workerId = None \<Longrightarrow> terminateWorker this workerId = this"
  by (simp add: terminateWorker_def)

lemma spawnWorker_rejects:
  "int (length (workers this)) \<ge> maxWorkers (pim_config this)
     \<or> map_of (workers this) (sp_taskId params) \<noteq> None \<or> outcome \<noteq> TaskCreated
   \<Longrightarrow> \<exists>e. fst (spawnWorker this params outcome now) = Inl e"
  by (cases outcome) (auto simp: spawnWorker_def Let_def)

text \<open>Claim C9. Whenever \<open>spawnWorker\<close> rejects, the manager (its worker map included) is
  exactly as before the call, and the rejection is one of: the pool is at \<open>maxWorkers\<close>, a
  worker with the task id is already tracked, the creation of the session timed out (or its
  constructor threw). The call is taken as one step of the manager: no other call changes the
  pool while it is suspended.\<close>

theorem spawnWorker_atomic_on_failure:
  assumes "fst (spawnWorker this params outcome now) = Inl e"
  shows "snd (spawnWorker this params outcome now) = this
     \<and> (e = MaxWorkerLimit (maxWorkers (pim_config this)) \<and> int (length (workers this)) \<ge> maxWorkers (pim_config this)
        \<or> e = WorkerExists (sp_taskId params) \<and> map_of (workers this) (sp_taskId params) \<noteq> None
        \<or> e = SpawnTimeout (spawnTimeout (pim_config this)) \<and> outcome = TaskTimedOut
        \<or> e = TaskConstructorFailed \<and> outcome = TaskConstructorThrew)"
  using assms
  by (cases outcome) (auto simp: spawnWorker_def terminateWorker_untracked Let_def split: if_splits)

theorem spawnWorker_atomic_on_failure_witness:
  "fst (spawnWorker example_pool \<lparr> sp_taskId = ''t3'', sp_workingDir = ''/c'', sp_systemPrompt = ''r'',
          sp_mcpServers = None \<rparr> TaskTimedOut 2) = Inl (SpawnTimeout 3000)
   \<and> snd (spawnWorker example_pool \<lparr> sp_taskId = ''t3'', sp_workingDir = ''/c'', sp_systemPrompt = ''r'',
          sp_mcpServers = None \<rparr> TaskTimedOut 2) = example_pool
   \<and> map fst (workers example_pool) = [''t1'']"
proof -
  have w: "map fst (workers example_pool) = [''t1'']"
    by (simp add: example_pool_def ParallelInstanceManager_new_def spawnWorker_def Let_def)
  have r: "fst (spawnWorker example_pool \<lparr> sp_taskId = ''t3'', sp_workingDir = ''/c'', sp_systemPrompt = ''r'',
          sp_mcpServers = None \<rparr> TaskTimedOut 2) = Inl (SpawnTimeout 3000)"
    by (simp add: example_pool_def ParallelInstanceManager_new_def spawnWorker_def Let_def)
  from spawnWorker_atomic_on_failure[OF r] r w show ?thesis by simp
qed


section \<open>Properties of the IPCChannel\<close>













section \<open>Properties of the OrchestrationScheduler\<close>

lemma assignAll_stops_at_failure:
  "fst (assignTask env this taskId) = Inl e \<Longrightarrow>
   assignAll env (taskId # rest) this = (Some e, snd (assignTask env this taskId))"
  by (cases "assignTask env this taskId") auto

text \<open>A rejected assignment ends the dispatch loop at that id, and it ends the run: the
  iteration of \<open>start\<close> that dispatched it emits \<open>error\<close> and rejects.\<close>

lemma run_loop_rejects_on_failed_assignment:
  assumes "\<not> allTasksComplete (s_graph this)"
    and "filter (\<lambda>taskId. map_of (s_executionState this) taskId = Some pending)
           (getIndependentTasks (s_graph this)) = availableTasks"
    and "availableTasks \<noteq> []"
    and "getAvailableWorkerCount this \<noteq> 0"
    and "selectTasks (s_strategy this) availableTasks (getAvailableWorkerCount this)
           (Some (s_currentRPM this)) (Some (s_graph this)) = Some (Inr (tasksToSpawn, tasksAfter))"
    and "assignAll env tasksToSpawn this = (Some e, this')"
  shows "run_loop env script False this
           = Some (RunRejected e, this'\<lparr> s_events := s_events this' @ [ev_error e] \<rparr>)"
  using assms by (subst run_loop.simps) (simp add: Let_def)

lemma assignAll_failure_prefix:
  "assignAll env ts this = (Some e, this') \<Longrightarrow>
   \<exists>before taskId rest this0. ts = before @ taskId # rest
      \<and> assignAll env before this = (None, this0)
      \<and> fst (assignTask env this0 taskId) = Inl e \<and> this' = snd (assignTask env this0 taskId)"
proof (induction ts arbitrary: this)
  case Nil
  then show ?case by simp
next
  case (Cons t ts)
  show ?case
  proof (cases "assignTask env this t")
    case (Pair r this1)
    show ?thesis
    proof (cases r)
      case (Inl e')
      then have "e' = e" "this' = this1" using Cons.prems Pair by auto
      then show ?thesis using Pair Inl
        by (intro exI[of _ "[]"] exI[of _ t] exI[of _ ts] exI[of _ this]) simp
    next
      case (Inr u)
      then have "assignAll env ts this1 = (Some e, this')" using Cons.prems Pair by simp
      from Cons.IH[OF this] obtain before taskId rest this0 where
        h: "ts = before @ taskId # rest" "assignAll env before this1 = (None, this0)"
           "fst (assignTask env this0 taskId) = Inl e" "this' = snd (assignTask env this0 taskId)"
        by blast
      show ?thesis using h Pair Inr
        by (intro exI[of _ "t # before"] exI[of _ taskId] exI[of _ rest] exI[of _ this0]) simp
    qed
  qed
qed

text \<open>Claim C1. The claim says that a failed \<open>assign(id)\<close> marks the task failed and the loop
  goes on. In the code \<open>assignTask\<close> rethrows after marking, and \<open>start\<close> catches, emits
  \<open>error\<close> and rejects. For the two independent tasks \<open>A\<close> and \<open>B\<close>, both picked by the
  strategy, with the session of \<open>A\<close> timing out: \<open>A\<close> is marked failed, \<open>B\<close> is never
  assigned and stays pending, and the run ends rejected.\<close>

theorem start_aborts_on_assignment_failure:
  "selectTasks (s_strategy example_scheduler) [''A'', ''B''] (getAvailableWorkerCount example_scheduler)
       (Some (s_currentRPM example_scheduler)) (Some (s_graph example_scheduler))
     = Some (Inr ([''A'', ''B''], [''A'', ''B'']))
   \<and> map_option (\<lambda>(r, s). (r, s_executionState s, s_events s)) (start example_env [] example_scheduler)
     = Some (RunRejected (SpawnTimeout 3000),
             [(''A'', failed), (''B'', pending)],
             [ev_started, ev_task_assign_failed ''A'' (SpawnTimeout 3000), ev_error (SpawnTimeout 3000)])"
  by code_simp

text \<open>Claim C2. The number of worker slots given to the strategy is
  \<open>max(0, 10 - runningCount)\<close> whatever the pool's \<open>maxWorkers\<close> is: with \<open>maxWorkers = 5\<close>
  and no running task it is 10, not 5.\<close>

theorem getAvailableWorkerCount_hard_codes_ten:
  "getAvailableWorkerCount this = max 0 (10 - runningCount this)
   \<and> maxWorkers (pim_config (s_instanceManager example_scheduler)) = 5
   \<and> runningCount example_scheduler = 0
   \<and> getAvailableWorkerCount example_scheduler = 10"
proof -
  have "maxWorkers (pim_config (s_instanceManager example_scheduler)) = 5" by code_simp
  moreover have "runningCount example_scheduler = 0" by code_simp
  moreover have "getAvailableWorkerCount example_scheduler = 10" by code_simp
  ultimately show ?thesis by (simp add: getAvailableWorkerCount_def)
qed


section \<open>Properties of the ReviewCoordinator\<close>




lemma w_id_spawnWorker:
  "spawnWorker im params outcome now = (Inr worker, im') \<Longrightarrow> w_id worker = sp_taskId params"
  by (cases outcome) (auto simp: spawnWorker_def Let_def split: if_splits)






section \<open>Properties of the WorkspaceAnalyzer\<close>


lemma checkConflict_severity: "checkConflict this t1 t2 = Some c \<Longrightarrow> c_severity c = severity_error"
  by (auto simp: checkConflict_def Let_def split: option.splits if_splits)

lemma pair_conflicts_severity: "c \<in> set (pair_conflicts this tasks) \<Longrightarrow> c_severity c = severity_error"
  by (induction tasks) (auto split: option.splits if_splits dest: checkConflict_severity[OF sym])

lemma normalizePath_strictMode: "normalizePath (with_strictMode b this) p = normalizePath this p"
  by (simp add: normalizePath_def with_strictMode_def Let_def)

lemma pathsConflict_strictMode: "pathsConflict (with_strictMode b this) p q = pathsConflict this p q"
  by (simp add: pathsConflict_def with_strictMode_def)

lemma checkConflict_strictMode: "checkConflict (with_strictMode b this) = checkConflict this"
  by (intro ext)
     (simp add: checkConflict_def normalizePath_strictMode pathsConflict_strictMode
        cong: option.case_cong)

lemma pair_conflicts_strictMode: "pair_conflicts (with_strictMode b this) tasks = pair_conflicts this tasks"
  by (induction tasks) (simp_all add: checkConflict_strictMode cong: if_cong)

text \<open>Claim C8. Every conflict that \<open>validateAssignments\<close> produces has severity \<open>error\<close>,
  and for every task list and every choice of the other options the result has the same
  \<open>isValid\<close> with \<open>strictMode = true\<close> as with \<open>strictMode = false\<close>.\<close>

theorem validateAssignments_strictMode_irrelevant:
  "(\<forall>c \<in> set (conflicts (validateAssignments this tasks)). c_severity c = severity_error)
   \<and> isValid (validateAssignments (with_strictMode True this) tasks)
       = isValid (validateAssignments (with_strictMode False this) tasks)
   \<and> strictMode (wa_config (with_strictMode True this))
   \<and> \<not> strictMode (wa_config (with_strictMode False this))"
proof -
  have a: "\<forall>c \<in> set (pair_conflicts this tasks). c_severity c = severity_error"
    using pair_conflicts_severity by blast
  then have "filter (\<lambda>c. c_severity c = severity_error) (pair_conflicts this tasks) = pair_conflicts this tasks"
    by (simp add: filter_id_conv)
  then show ?thesis using a
    by (simp add: validateAssignments_def Let_def pair_conflicts_strictMode)
       (simp add: with_strictMode_def)
qed

theorem validateAssignments_strictMode_irrelevant_witness:
  "map c_severity (conflicts (validateAssignments example_analyzer example_workspace_tasks)) = [severity_error]
   \<and> \<not> isValid (validateAssignments (with_strictMode True example_analyzer) example_workspace_tasks)
   \<and> \<not> isValid (validateAssignments (with_strictMode False example_analyzer) example_workspace_tasks)"
proof -
  have len: "length (conflicts (validateAssignments example_analyzer example_workspace_tasks)) = 1"
    by code_simp
  then obtain c where c: "conflicts (validateAssignments example_analyzer example_workspace_tasks) = [c]"
    by (cases "conflicts (validateAssignments example_analyzer example_workspace_tasks)") auto
  have strict: "\<not> isValid (validateAssignments (with_strictMode True example_analyzer) example_workspace_tasks)"
    by code_simp
  from validateAssignments_strictMode_irrelevant[of example_analyzer example_workspace_tasks]
  show ?thesis using c strict by simp
qed


end
